theory Spec2Isabelle
  imports Main "HOL-Library.AList"
begin

section \<open>Python values used by the reservation system\<close>

text \<open>
  The two source files are Python. The exceptions that the modelled code can raise are
  values of \<open>pyerror\<close>; a function that may raise returns \<open>pyerror + 'a\<close>, with
  \<open>Inl\<close> for the exception.
\<close>

datatype pyerror = ValueError | OverflowError

subsection \<open>Floats\<close>

text \<open>
  \<open>price_per_seat\<close> and \<open>total_fare\<close> are annotated \<open>float\<close>. A Python float is an
  IEEE 754 binary64 number. \<open>FinF s m e\<close> stands for \<open>(-1)^s * m * 2^e\<close>; the numbers
  produced by \<open>round_double\<close> have \<open>m < 2^53\<close> and \<open>-1074 \<le> e \<le> 971\<close>, with
  \<open>2^52 \<le> m\<close> unless \<open>e = -1074\<close> (subnormal numbers and zero), so every double has
  exactly one such representation.
\<close>

datatype pyfloat = FinF bool nat int | InfF bool | NanF

text \<open>\<open>int.bit_length()\<close> of a natural number.\<close>

fun bit_length :: "nat \<Rightarrow> nat" where
  "bit_length n = (if n = 0 then 0 else Suc (bit_length (n div 2)))"

declare bit_length.simps [simp del]

text \<open>
  Rounding of the exact value \<open>(-1)^s * m * 2^e\<close> to the nearest double, ties to even,
  overflowing to an infinity: \<open>q\<close> is the exponent of the unit in the last place of the
  result.
\<close>

definition round_double :: "bool \<Rightarrow> nat \<Rightarrow> int \<Rightarrow> pyfloat" where
  "round_double s m e =
     (if m = 0 then FinF s 0 (- 1074)
      else
        let q = max (e + int (bit_length m) - 53) (- 1074) in
        if q \<le> e then
          (if 971 < q then InfF s else FinF s (m * 2 ^ nat (e - q)) q)
        else
          let k = nat (q - e);
              m' = m div 2 ^ k;
              r = m mod 2 ^ k;
              h = 2 ^ (k - 1);
              m'' = (if h < r \<or> (r = h \<and> odd m') then m' + 1 else m')
          in if m'' = 2 ^ 53
             then (if 971 < q + 1 then InfF s else FinF s (2 ^ 52) (q + 1))
             else (if 971 < q then InfF s else FinF s m'' q))"

text \<open>
  \<open>float(n)\<close> for a Python int, as the interpreter applies it to the int operand of
  \<open>int * float\<close>: correctly rounded, and \<open>OverflowError\<close> ("int too large to convert
  to float") when the rounded value is not finite.
\<close>

definition float_of_int :: "int \<Rightarrow> pyerror + pyfloat" where
  "float_of_int n =
     (case round_double (n < 0) (nat \<bar>n\<bar>) 0 of
        InfF s \<Rightarrow> Inl OverflowError
      | x \<Rightarrow> Inr x)"

text \<open>Float multiplication: the exact product, rounded. It never raises.\<close>

fun float_mul :: "pyfloat \<Rightarrow> pyfloat \<Rightarrow> pyfloat" where
  "float_mul NanF y = NanF"
| "float_mul x NanF = NanF"
| "float_mul (InfF s) (InfF t) = InfF (s \<noteq> t)"
| "float_mul (InfF s) (FinF t n f) = (if n = 0 then NanF else InfF (s \<noteq> t))"
| "float_mul (FinF s m e) (InfF t) = (if m = 0 then NanF else InfF (s \<noteq> t))"
| "float_mul (FinF s m e) (FinF t n f) = round_double (s \<noteq> t) (m * n) (e + f)"

text \<open>A float literal with an integral value, such as \<open>450.0\<close>.\<close>

definition float_literal :: "nat \<Rightarrow> pyfloat" where
  "float_literal n = round_double False n 0"

subsection \<open>Numbers\<close>

text \<open>
  Python does not enforce the annotation \<open>price_per_seat: float\<close>: the console program
  seeds its catalog with floats (\<open>450.0\<close>), the web program with ints (\<open>450\<close>). A price
  or a fare is therefore a number of either kind.
\<close>

datatype pynum = PyInt int | PyFloat pyfloat

text \<open>\<open>n * p\<close> for an int \<open>n\<close>: int arithmetic is exact, a float operand converts \<open>n\<close> first.\<close>

fun py_mul :: "int \<Rightarrow> pynum \<Rightarrow> pyerror + pynum" where
  "py_mul n (PyInt p) = Inr (PyInt (n * p))"
| "py_mul n (PyFloat x) =
     (case float_of_int n of
        Inl err \<Rightarrow> Inl err
      | Inr y \<Rightarrow> Inr (PyFloat (float_mul y x)))"

declare py_mul.simps [simp del]

text \<open>
  Python's \<open>==\<close> on numbers compares exact values: \<open>450 == 450.0\<close> is true, the two
  zeros are equal, and a NaN equals nothing.
\<close>

fun signed_mantissa :: "bool \<Rightarrow> nat \<Rightarrow> int" where
  "signed_mantissa s m = (if s then - int m else int m)"

fun float_eq_int :: "pyfloat \<Rightarrow> int \<Rightarrow> bool" where
  "float_eq_int (FinF s m e) n =
     (if 0 \<le> e then signed_mantissa s m * 2 ^ nat e = n
      else signed_mantissa s m = n * 2 ^ nat (- e))"
| "float_eq_int (InfF s) n = False"
| "float_eq_int NanF n = False"

fun float_eq :: "pyfloat \<Rightarrow> pyfloat \<Rightarrow> bool" where
  "float_eq (FinF s m e) (FinF t n f) =
     (let g = min e f
      in signed_mantissa s m * 2 ^ nat (e - g) = signed_mantissa t n * 2 ^ nat (f - g))"
| "float_eq (InfF s) (InfF t) = (s = t)"
| "float_eq x y = False"

fun py_eq :: "pynum \<Rightarrow> pynum \<Rightarrow> bool" where
  "py_eq (PyInt a) (PyInt b) = (a = b)"
| "py_eq (PyFloat x) (PyInt b) = float_eq_int x b"
| "py_eq (PyInt a) (PyFloat y) = float_eq_int y a"
| "py_eq (PyFloat x) (PyFloat y) = float_eq x y"

subsection \<open>Strings\<close>


text \<open>
  The text of an int, as \<open>str(n)\<close> and an f-string field \<open>{n}\<close> produce it, exists
  only for an int of at most 4300 decimal digits, the sign not counted (the default
  limit of CPython 3.11 and later, \<open>sys.get_int_max_str_digits()\<close>): the conversion of
  a longer int raises \<open>ValueError\<close>. \<open>int_str_ok n\<close> says that \<open>n\<close> converts.
\<close>

definition max_str_digits :: nat where
  "max_str_digits = 4300"

definition int_str_ok :: "int \<Rightarrow> bool" where
  "int_str_ok n \<longleftrightarrow> \<bar>n\<bar> < 10 ^ max_str_digits"

section \<open>Data model\<close>

text \<open>The two dataclasses, identical in both source files.\<close>

record trip =
  trip_id :: int
  source :: string
  destination :: string
  date :: string
  time :: string
  total_seats :: int
  seats_available :: int
  price_per_seat :: pynum

record booking =
  booking_id :: int
  passenger_name :: string
  passenger_age :: int
  trip_id :: int
  num_seats :: int
  total_fare :: pynum
  status :: string


text \<open>
  \<open>ReservationSystem\<close>: a Python dict keeps its keys in insertion order and
  \<open>d[k] = v\<close> replaces the value of a present key in place, which is what
  \<open>AList.update\<close> does on an association list; \<open>d.get(k)\<close> is \<open>map_of\<close>.
\<close>

record reservation_system =
  trips :: "(int \<times> trip) list"
  bookings :: "(int \<times> booking) list"
  next_trip_id :: int
  next_booking_id :: int

section \<open>The console program\<close>

subsection \<open>Trip management\<close>

definition add_trip ::
  "reservation_system \<Rightarrow> string \<Rightarrow> string \<Rightarrow> string \<Rightarrow> string \<Rightarrow> int \<Rightarrow> pynum
     \<Rightarrow> reservation_system" where
  "add_trip s src dst dt tm seats price =
     (let t = \<lparr>trip.trip_id = next_trip_id s, source = src, destination = dst, date = dt,
                time = tm, total_seats = seats, seats_available = seats,
                price_per_seat = price\<rparr>;
          s1 = s\<lparr>trips := AList.update (trip.trip_id t) t (trips s)\<rparr>
      in s1\<lparr>next_trip_id := next_trip_id s1 + 1\<rparr>)"

definition load_sample_data :: "reservation_system \<Rightarrow> reservation_system" where
  "load_sample_data s =
     (let s1 = add_trip s ''Bhopal'' ''Indore'' ''2025-12-10'' ''09:00'' 40
                 (PyFloat (float_literal 450));
          s2 = add_trip s1 ''Bhopal'' ''Indore'' ''2025-12-10'' ''18:00'' 40
                 (PyFloat (float_literal 500));
          s3 = add_trip s2 ''Bhopal'' ''Delhi'' ''2025-12-11'' ''20:00'' 50
                 (PyFloat (float_literal 1200));
          s4 = add_trip s3 ''Indore'' ''Bhopal'' ''2025-12-11'' ''07:30'' 40
                 (PyFloat (float_literal 450))
      in add_trip s4 ''Bhopal'' ''Mumbai'' ''2025-12-12'' ''21:00'' 50
           (PyFloat (float_literal 1800)))"

text \<open>\<open>ReservationSystem()\<close>: the constructor of the console program.\<close>

definition init :: reservation_system where
  "init = load_sample_data
     \<lparr>trips = [], bookings = [], next_trip_id = 1, next_booking_id = 1\<rparr>"

subsection \<open>Search operations\<close>

definition list_all_trips :: "reservation_system \<Rightarrow> trip list" where
  "list_all_trips s = map snd (trips s)"






subsection \<open>Booking operations\<close>

text \<open>
  The core of the console program prints a line before each \<open>return None\<close> and
  \<open>return False\<close>. A \<open>message\<close> is one such line, with the values it interpolates:
  \<^item> \<open>InvalidTripId\<close>: "Invalid trip ID."
  \<^item> \<open>SeatsAtLeastOne\<close>: "Number of seats must be at least 1."
  \<^item> \<open>OnlySeatsAvailable a r\<close>: "Only a seats available on this trip. Requested: r"
  \<^item> \<open>InvalidBookingId\<close>: "Invalid booking ID."
  \<^item> \<open>AlreadyCancelled\<close>: "Booking is already cancelled."
  An operation returns the lines it printed, its return value and the system after it.
\<close>

datatype message =
    InvalidTripId
  | SeatsAtLeastOne
  | OnlySeatsAvailable int int
  | InvalidBookingId
  | AlreadyCancelled

text \<open>
  \<open>book_ticket\<close> can raise in two places. The line for too few seats is an f-string
  with the fields \<open>{trip.seats_available}\<close> and \<open>{num_seats}\<close>: it is built before
  \<open>print\<close> is called, and building it raises \<open>ValueError\<close> when one of the two ints
  has more than 4300 digits; then nothing is printed and \<open>return None\<close> is not reached.
  The fare \<open>num_seats * trip.price_per_seat\<close> raises \<open>OverflowError\<close> when the int does
  not convert to a float. Both come before the first assignment: when \<open>book_ticket\<close>
  raises, the system is as it was.
\<close>

definition book_ticket ::
  "reservation_system \<Rightarrow> string \<Rightarrow> int \<Rightarrow> int \<Rightarrow> int
     \<Rightarrow> pyerror + (message list \<times> booking option \<times> reservation_system)" where
  "book_ticket s name age tid seats =
     (case map_of (trips s) tid of
        None \<Rightarrow> Inr ([InvalidTripId], None, s)
      | Some t \<Rightarrow>
          if seats \<le> 0 then Inr ([SeatsAtLeastOne], None, s)
          else if seats_available t < seats
          then
            (if int_str_ok (seats_available t) \<and> int_str_ok seats
             then Inr ([OnlySeatsAvailable (seats_available t) seats], None, s)
             else Inl ValueError)
          else
            (case py_mul seats (price_per_seat t) of
               Inl err \<Rightarrow> Inl err
             | Inr fare \<Rightarrow>
                 let b = \<lparr>booking_id = next_booking_id s, passenger_name = name,
                            passenger_age = age, trip_id = tid, num_seats = seats,
                            total_fare = fare, status = ''CONFIRMED''\<rparr>;
                     s1 = s\<lparr>bookings := AList.update (booking_id b) b (bookings s)\<rparr>;
                     s2 = s1\<lparr>next_booking_id := next_booking_id s1 + 1\<rparr>;
                     s3 = s2\<lparr>trips :=
                            AList.update tid (t\<lparr>seats_available := seats_available t - seats\<rparr>)
                              (trips s2)\<rparr>
                 in Inr ([], Some b, s3)))"

definition get_booking :: "reservation_system \<Rightarrow> int \<Rightarrow> booking option" where
  "get_booking s bid = map_of (bookings s) bid"

text \<open>
  \<open>if trip:\<close> tests an instance of a dataclass that defines neither \<open>__bool__\<close> nor
  \<open>__len__\<close>: it holds exactly when the trip is not \<open>None\<close>.
\<close>

definition cancel_booking ::
  "reservation_system \<Rightarrow> int \<Rightarrow> message list \<times> bool \<times> reservation_system" where
  "cancel_booking s bid =
     (case map_of (bookings s) bid of
        None \<Rightarrow> ([InvalidBookingId], False, s)
      | Some b \<Rightarrow>
          if status b = ''CANCELLED'' then ([AlreadyCancelled], False, s)
          else
            let s1 = (case map_of (trips s) (trip_id b) of
                        None \<Rightarrow> s
                      | Some t \<Rightarrow>
                          s\<lparr>trips :=
                              AList.update (trip_id b)
                                (t\<lparr>seats_available := seats_available t + num_seats b\<rparr>)
                                (trips s)\<rparr>);
                s2 = s1\<lparr>bookings :=
                        AList.update bid (b\<lparr>status := ''CANCELLED''\<rparr>) (bookings s1)\<rparr>
            in ([], True, s2))"

definition list_all_bookings :: "reservation_system \<Rightarrow> booking list" where
  "list_all_bookings s = map snd (bookings s)"

section \<open>The web program\<close>

text \<open>
  The routes pass the fields of the submitted form, which are strings, straight to
  \<open>book_ticket\<close> and \<open>cancel_booking\<close>, and these convert with \<open>int(...)\<close>. An
  argument is therefore an int or a string.
\<close>

datatype pyval = IntV int | StrV string

text \<open>
  \<open>int(s)\<close> for a string: white space is skipped at both ends, a sign may follow, then
  decimal digits, where single underscores may separate digits. Anything else raises
  \<open>ValueError\<close>, and so does a numeral of more than 4300 digits (the limit on the
  text of an int applies in this direction too). Among the code points below 256, the
  white space that \<open>int\<close> skips is tab, line feed, vertical tab, form feed, carriage
  return and space (9 to 13, 32), next line (133) and no-break space (160), and the
  decimal digits are \<open>0\<close> to \<open>9\<close>.
\<close>

definition is_space :: "char \<Rightarrow> bool" where
  "is_space c = ((9 \<le> (of_char c :: nat) \<and> (of_char c :: nat) \<le> 13)
                 \<or> (of_char c :: nat) = 32 \<or> (of_char c :: nat) = 133
                 \<or> (of_char c :: nat) = 160)"

definition is_digit :: "char \<Rightarrow> bool" where
  "is_digit c = (48 \<le> (of_char c :: nat) \<and> (of_char c :: nat) \<le> 57)"

definition strip :: "string \<Rightarrow> string" where
  "strip s = rev (dropWhile is_space (rev (dropWhile is_space s)))"

text \<open>
  \<open>parse_digits acc after_digit cs\<close>: \<open>acc\<close> is the value read so far and
  \<open>after_digit\<close> tells whether the character before \<open>cs\<close> was a digit.
\<close>

fun parse_digits :: "nat \<Rightarrow> bool \<Rightarrow> string \<Rightarrow> nat option" where
  "parse_digits acc after_digit [] = (if after_digit then Some acc else None)"
| "parse_digits acc after_digit (c # cs) =
     (if is_digit c then parse_digits (10 * acc + ((of_char c :: nat) - 48)) True cs
      else if c = CHR ''_'' \<and> after_digit then parse_digits acc False cs
      else None)"

definition parse_int :: "string \<Rightarrow> pyerror + int" where
  "parse_int s =
     (let body = strip s;
          negative = (body \<noteq> [] \<and> hd body = CHR ''-'');
          digits = (if body \<noteq> [] \<and> (hd body = CHR ''-'' \<or> hd body = CHR ''+'')
                    then tl body else body)
      in if 4300 < length (filter is_digit digits) then Inl ValueError
         else
           (case parse_digits 0 False digits of
              None \<Rightarrow> Inl ValueError
            | Some v \<Rightarrow> Inr (if negative then - int v else int v)))"

fun py_int :: "pyval \<Rightarrow> pyerror + int" where
  "py_int (IntV n) = Inr n"
| "py_int (StrV s) = parse_int s"

subsection \<open>Trip management\<close>

text \<open>\<open>_add_trip\<close> is the console program's, without the return value.\<close>

definition web_load_sample_data :: "reservation_system \<Rightarrow> reservation_system" where
  "web_load_sample_data s =
     (let s1 = add_trip s ''Bhopal'' ''Indore'' ''2025-12-10'' ''09:00'' 40 (PyInt 450);
          s2 = add_trip s1 ''Bhopal'' ''Indore'' ''2025-12-10'' ''18:00'' 40 (PyInt 500);
          s3 = add_trip s2 ''Bhopal'' ''Delhi'' ''2025-12-11'' ''20:00'' 50 (PyInt 1200);
          s4 = add_trip s3 ''Indore'' ''Bhopal'' ''2025-12-11'' ''07:30'' 40 (PyInt 450)
      in add_trip s4 ''Bhopal'' ''Mumbai'' ''2025-12-12'' ''21:00'' 50 (PyInt 1800))"

definition web_init :: reservation_system where
  "web_init = web_load_sample_data
     \<lparr>trips = [], bookings = [], next_trip_id = 1, next_booking_id = 1\<rparr>"

definition web_list_all_trips :: "reservation_system \<Rightarrow> trip list" where
  "web_list_all_trips s = map snd (trips s)"

subsection \<open>Booking operations\<close>

text \<open>
  The web \<open>book_ticket\<close> evaluates, in this order: \<open>int(trip_id)\<close>, the lookup,
  \<open>int(seats)\<close>, the one test for both seat conditions, the fare, and \<open>int(age)\<close>
  among the arguments of \<open>Booking(...)\<close>. All of it comes before the first assignment:
  when one of them raises, the system is as it was. It prints nothing.
\<close>

definition web_book_ticket ::
  "reservation_system \<Rightarrow> string \<Rightarrow> pyval \<Rightarrow> pyval \<Rightarrow> pyval
     \<Rightarrow> pyerror + (booking option \<times> reservation_system)" where
  "web_book_ticket s name age tid seats =
     (case py_int tid of
        Inl err \<Rightarrow> Inl err
      | Inr k \<Rightarrow>
          (case map_of (trips s) k of
             None \<Rightarrow> Inr (None, s)
           | Some t \<Rightarrow>
               (case py_int seats of
                  Inl err \<Rightarrow> Inl err
                | Inr n \<Rightarrow>
                    if n \<le> 0 \<or> seats_available t < n then Inr (None, s)
                    else
                      (case py_mul n (price_per_seat t) of
                         Inl err \<Rightarrow> Inl err
                       | Inr fare \<Rightarrow>
                           (case py_int age of
                              Inl err \<Rightarrow> Inl err
                            | Inr a \<Rightarrow>
                                let b = \<lparr>booking_id = next_booking_id s,
                                           passenger_name = name, passenger_age = a,
                                           trip_id = trip.trip_id t, num_seats = n,
                                           total_fare = fare, status = ''CONFIRMED''\<rparr>;
                                    s1 = s\<lparr>bookings :=
                                            AList.update (booking_id b) b (bookings s)\<rparr>;
                                    s2 = s1\<lparr>next_booking_id := next_booking_id s1 + 1\<rparr>;
                                    s3 = s2\<lparr>trips :=
                                            AList.update k
                                              (t\<lparr>seats_available := seats_available t - n\<rparr>)
                                              (trips s2)\<rparr>
                                in Inr (Some b, s3))))))"

definition web_list_all_bookings :: "reservation_system \<Rightarrow> booking list" where
  "web_list_all_bookings s = map snd (bookings s)"

text \<open>\<open>not booking\<close> is true exactly when \<open>booking\<close> is \<open>None\<close>, as for \<open>if trip:\<close>.\<close>

definition web_cancel_booking ::
  "reservation_system \<Rightarrow> pyval \<Rightarrow> pyerror + (bool \<times> reservation_system)" where
  "web_cancel_booking s bid =
     (case py_int bid of
        Inl err \<Rightarrow> Inl err
      | Inr k \<Rightarrow>
          (case map_of (bookings s) k of
             None \<Rightarrow> Inr (False, s)
           | Some b \<Rightarrow>
               if status b = ''CANCELLED'' then Inr (False, s)
               else
                 let s1 = (case map_of (trips s) (trip_id b) of
                             None \<Rightarrow> s
                           | Some t \<Rightarrow>
                               s\<lparr>trips :=
                                   AList.update (trip_id b)
                                     (t\<lparr>seats_available := seats_available t + num_seats b\<rparr>)
                                     (trips s)\<rparr>);
                     s2 = s1\<lparr>bookings :=
                             AList.update k (b\<lparr>status := ''CANCELLED''\<rparr>) (bookings s1)\<rparr>
                 in Inr (True, s2)))"

section \<open>Sequences of calls\<close>

text \<open>
  The operations that both programs expose, as data, and what a call returns. A call of
  \<open>book_ticket\<close> or \<open>cancel_booking\<close> that raises has assigned nothing before it
  raises, so the system after it is the system before it, and the sequence goes on with
  the next call. \<open>BookTicket\<close> and \<open>CancelBooking\<close> carry int arguments; the web
  program receives them as they are.
\<close>

datatype op = ListTrips | BookTicket string int int int | CancelBooking int | ListBookings

datatype result =
    Trips "trip list"
  | Booked "booking option"
  | Cancelled bool
  | Bookings "booking list"
  | Raised pyerror

fun step :: "op \<Rightarrow> reservation_system \<Rightarrow> message list \<times> result \<times> reservation_system" where
  "step ListTrips s = ([], Trips (list_all_trips s), s)"
| "step (BookTicket name age tid seats) s =
     (case book_ticket s name age tid seats of
        Inl err \<Rightarrow> ([], Raised err, s)
      | Inr (msgs, r, s') \<Rightarrow> (msgs, Booked r, s'))"
| "step (CancelBooking bid) s =
     (case cancel_booking s bid of (msgs, r, s') \<Rightarrow> (msgs, Cancelled r, s'))"
| "step ListBookings s = ([], Bookings (list_all_bookings s), s)"

fun run :: "op list \<Rightarrow> reservation_system \<Rightarrow> result list \<times> reservation_system" where
  "run [] s = ([], s)"
| "run (x # xs) s =
     (case step x s of (msgs, r, s') \<Rightarrow>
        (case run xs s' of (rs, s'') \<Rightarrow> (r # rs, s'')))"

fun web_step :: "op \<Rightarrow> reservation_system \<Rightarrow> result \<times> reservation_system" where
  "web_step ListTrips s = (Trips (web_list_all_trips s), s)"
| "web_step (BookTicket name age tid seats) s =
     (case web_book_ticket s name (IntV age) (IntV tid) (IntV seats) of
        Inl err \<Rightarrow> (Raised err, s)
      | Inr (r, s') \<Rightarrow> (Booked r, s'))"
| "web_step (CancelBooking bid) s =
     (case web_cancel_booking s (IntV bid) of
        Inl err \<Rightarrow> (Raised err, s)
      | Inr (r, s') \<Rightarrow> (Cancelled r, s'))"
| "web_step ListBookings s = (Bookings (web_list_all_bookings s), s)"

fun web_run :: "op list \<Rightarrow> reservation_system \<Rightarrow> result list \<times> reservation_system" where
  "web_run [] s = ([], s)"
| "web_run (x # xs) s =
     (case web_step x s of (r, s') \<Rightarrow>
        (case web_run xs s' of (rs, s'') \<Rightarrow> (r # rs, s'')))"

section \<open>Notions of the specification\<close>

text \<open>The seats available on the trip stored under an id, if there is one.\<close>

definition seats_of :: "reservation_system \<Rightarrow> int \<Rightarrow> int option" where
  "seats_of s tid = map_option seats_available (map_of (trips s) tid)"

text \<open>
  \<open>sum(num_seats for b in bookings if b.trip_id == k and b.status == CONFIRMED)\<close>, over
  the bookings of the ledger.
\<close>

definition confirmed_seats :: "reservation_system \<Rightarrow> int \<Rightarrow> int" where
  "confirmed_seats s k =
     sum_list (map num_seats
       (filter (\<lambda>b. trip_id b = k \<and> status b = ''CONFIRMED'') (list_all_bookings s)))"

text \<open>What one booking contributes to \<open>confirmed_seats s k\<close>.\<close>

definition counted :: "int \<Rightarrow> booking \<Rightarrow> int" where
  "counted k b = (if trip_id b = k \<and> status b = ''CONFIRMED'' then num_seats b else 0)"

text \<open>
  The invariant that the constructor establishes and every operation keeps: trip ids are
  distinct and equal to their keys, seats are conserved on every trip, booking ids are
  below the counter, every booking holds at least one seat and is confirmed or cancelled.
\<close>

definition ledger_inv :: "reservation_system \<Rightarrow> bool" where
  "ledger_inv s \<longleftrightarrow>
     distinct (map fst (trips s))
     \<and> (\<forall>(k, t) \<in> set (trips s).
          trip.trip_id t = k \<and> seats_available t + confirmed_seats s k = total_seats t)
     \<and> (\<forall>(k, b) \<in> set (bookings s).
          k < next_booking_id s \<and> 0 < num_seats b
          \<and> (status b = ''CONFIRMED'' \<or> status b = ''CANCELLED''))"





text \<open>
  When are a value of the console program and a value of the web program the same? Ints
  and strings are compared with \<open>=\<close>, prices and fares with Python's \<open>==\<close>
  (\<open>py_eq\<close>): the console catalog holds the float \<open>450.0\<close> where the web catalog holds
  the int \<open>450\<close>.
\<close>

definition same_trip :: "trip \<Rightarrow> trip \<Rightarrow> bool" where
  "same_trip c w \<longleftrightarrow>
     trip.trip_id c = trip.trip_id w \<and> source c = source w \<and> destination c = destination w
     \<and> date c = date w \<and> time c = time w \<and> total_seats c = total_seats w
     \<and> seats_available c = seats_available w
     \<and> py_eq (price_per_seat c) (price_per_seat w)"

definition same_booking :: "booking \<Rightarrow> booking \<Rightarrow> bool" where
  "same_booking c w \<longleftrightarrow>
     booking_id c = booking_id w \<and> passenger_name c = passenger_name w
     \<and> passenger_age c = passenger_age w \<and> trip_id c = trip_id w
     \<and> num_seats c = num_seats w \<and> py_eq (total_fare c) (total_fare w)
     \<and> status c = status w"

fun same_result :: "result \<Rightarrow> result \<Rightarrow> bool" where
  "same_result (Trips c) (Trips w) = list_all2 same_trip c w"
| "same_result (Booked c) (Booked w) = rel_option same_booking c w"
| "same_result (Cancelled c) (Cancelled w) = (c = w)"
| "same_result (Bookings c) (Bookings w) = list_all2 same_booking c w"
| "same_result (Raised c) (Raised w) = (c = w)"
| "same_result c w = False"

text \<open>A call that returned, rather than raised.\<close>

fun returned :: "result \<Rightarrow> bool" where
  "returned (Raised err) = False"
| "returned r = True"

text \<open>Two dicts with the same keys in the same order and related values.\<close>

definition keyed :: "('a \<Rightarrow> 'b \<Rightarrow> bool) \<Rightarrow> (int \<times> 'a) list \<Rightarrow> (int \<times> 'b) list \<Rightarrow> bool" where
  "keyed R xs ys = list_all2 (\<lambda>p q. fst p = fst q \<and> R (snd p) (snd q)) xs ys"

definition same_system :: "reservation_system \<Rightarrow> reservation_system \<Rightarrow> bool" where
  "same_system c w \<longleftrightarrow>
     keyed same_trip (trips c) (trips w) \<and> keyed same_booking (bookings c) (bookings w)
     \<and> next_trip_id c = next_trip_id w \<and> next_booking_id c = next_booking_id w"

text \<open>
  The relation that the two programs keep between their systems, used to prove
  \<open>same_system\<close>: the web trip is the console trip with the int price in place of the
  float price, prices and seat totals stay in the range of the seeded catalog, no seat
  count is negative, and a web booking is the console booking with the int fare in place
  of the float fare.
\<close>

definition paired_trip :: "trip \<Rightarrow> trip \<Rightarrow> bool" where
  "paired_trip c w \<longleftrightarrow>
     (\<exists>p. 0 < p \<and> p \<le> 1800 \<and> price_per_seat c = PyFloat (float_literal p)
        \<and> w = c\<lparr>price_per_seat := PyInt (int p)\<rparr>)
     \<and> 0 \<le> seats_available c \<and> total_seats c \<le> 50"

definition paired_booking :: "booking \<Rightarrow> booking \<Rightarrow> bool" where
  "paired_booking c w \<longleftrightarrow>
     (\<exists>f. 0 < f \<and> f < 2 ^ 53 \<and> total_fare c = PyFloat (float_literal f)
        \<and> w = c\<lparr>total_fare := PyInt (int f)\<rparr>)"

definition paired :: "reservation_system \<Rightarrow> reservation_system \<Rightarrow> bool" where
  "paired c w \<longleftrightarrow>
     ledger_inv c \<and> keyed paired_trip (trips c) (trips w)
     \<and> keyed paired_booking (bookings c) (bookings w)
     \<and> next_trip_id c = next_trip_id w \<and> next_booking_id c = next_booking_id w"

text \<open>
  A call that asks for fewer than \<open>10^4300\<close> seats, if it asks for seats at all: the seat
  count has at most 4300 digits, or is negative.
\<close>

fun within_digit_limit :: "op \<Rightarrow> bool" where
  "within_digit_limit (BookTicket name age tid seats) = (seats < 10 ^ max_str_digits)"
| "within_digit_limit x = True"

section \<open>Properties\<close>

subsection \<open>The seeded systems and the scenario of the specification\<close>

lemmas seed_defs =
  init_def web_init_def load_sample_data_def web_load_sample_data_def add_trip_def

lemmas float_eval =
  float_of_int_def float_literal_def round_double_def bit_length.simps Let_def

lemma trip_1_init:
  "map_of (trips init) 1 =
     Some \<lparr>trip.trip_id = 1, source = ''Bhopal'', destination = ''Indore'',
            date = ''2025-12-10'', time = ''09:00'', total_seats = 40, seats_available = 40,
            price_per_seat = PyFloat (float_literal 450)\<rparr>"
  by (simp add: seed_defs)

lemma trip_1_web_init:
  "map_of (trips web_init) 1 =
     Some \<lparr>trip.trip_id = 1, source = ''Bhopal'', destination = ''Indore'',
            date = ''2025-12-10'', time = ''09:00'', total_seats = 40, seats_available = 40,
            price_per_seat = PyInt 450\<rparr>"
  by (simp add: seed_defs)

lemma counters_init:
  "next_booking_id init = 1" "bookings init = []"
  "next_booking_id web_init = 1" "bookings web_init = []"
  by (simp_all add: seed_defs)

lemma parsed_fields:
  "py_int (StrV ''30'') = Inr 30" "py_int (StrV ''1'') = Inr 1" "py_int (StrV ''5'') = Inr 5"
  "py_int (StrV ''41'') = Inr 41" "py_int (StrV ''0'') = Inr 0" "py_int (StrV ''40'') = Inr 40"
  "py_int (StrV ''2'') = Inr 2" "py_int (StrV ''99'') = Inr 99"
  "py_int (StrV ''35'') = Inr 35"
  "py_int (StrV ''abc'') = Inl ValueError"
  "py_int (StrV '''') = Inl ValueError" "py_int (StrV ''2.5'') = Inl ValueError"
  by code_simp+

lemma fare_asha: "py_mul 5 (PyFloat (float_literal 450)) = Inr (PyFloat (float_literal 2250))"
  by (simp add: py_mul.simps float_eval)

lemma py_eq_2250: "py_eq (PyInt 2250) (PyFloat (float_literal 2250))"
  by (simp add: float_eval)

lemma book_asha:
  "book_ticket init ''Asha'' 30 1 5 =
     Inr ([], Some \<lparr>booking_id = 1, passenger_name = ''Asha'', passenger_age = 30,
                     trip_id = 1, num_seats = 5, total_fare = PyFloat (float_literal 2250),
                     status = ''CONFIRMED''\<rparr>,
          init\<lparr>bookings := [(1, \<lparr>booking_id = 1, passenger_name = ''Asha'',
                                   passenger_age = 30, trip_id = 1, num_seats = 5,
                                   total_fare = PyFloat (float_literal 2250),
                                   status = ''CONFIRMED''\<rparr>)],
               next_booking_id := 2,
               trips := AList.update 1
                 \<lparr>trip.trip_id = 1, source = ''Bhopal'', destination = ''Indore'',
                  date = ''2025-12-10'', time = ''09:00'', total_seats = 40,
                  seats_available = 35, price_per_seat = PyFloat (float_literal 450)\<rparr>
                 (trips init)\<rparr>)"
  by (simp add: book_ticket_def trip_1_init fare_asha counters_init Let_def)

lemma web_book_asha:
  "web_book_ticket web_init ''Asha'' (IntV 30) (IntV 1) (IntV 5) =
     Inr (Some \<lparr>booking_id = 1, passenger_name = ''Asha'', passenger_age = 30,
                 trip_id = 1, num_seats = 5, total_fare = PyInt 2250,
                 status = ''CONFIRMED''\<rparr>,
          web_init\<lparr>bookings := [(1, \<lparr>booking_id = 1, passenger_name = ''Asha'',
                                       passenger_age = 30, trip_id = 1, num_seats = 5,
                                       total_fare = PyInt 2250, status = ''CONFIRMED''\<rparr>)],
                   next_booking_id := 2,
                   trips := AList.update 1
                     \<lparr>trip.trip_id = 1, source = ''Bhopal'', destination = ''Indore'',
                      date = ''2025-12-10'', time = ''09:00'', total_seats = 40,
                      seats_available = 35, price_per_seat = PyInt 450\<rparr>
                     (trips web_init)\<rparr>)"
  by (simp add: web_book_ticket_def trip_1_web_init py_mul.simps counters_init Let_def)

subsection \<open>Ints that have a text\<close>

lemma digit_limit_above: "(100::int) \<le> 10 ^ max_str_digits"
proof -
  have "(10::int) ^ 2 \<le> 10 ^ max_str_digits"
    by (rule power_increasing) (simp_all add: max_str_digits_def)
  then show ?thesis by simp
qed

lemma int_str_ok_small: "\<bar>n\<bar> < 100 \<Longrightarrow> int_str_ok n"
  using digit_limit_above by (simp add: int_str_ok_def)

lemma int_str_ok_pos: "0 < n \<Longrightarrow> int_str_ok n \<longleftrightarrow> n < 10 ^ max_str_digits"
  by (simp add: int_str_ok_def)

subsection \<open>Successful bookings\<close>

lemma book_ticket_SomeE:
  assumes "book_ticket s name age tid seats = Inr (msgs, Some b, s')"
  obtains t fare where "map_of (trips s) tid = Some t" and "0 < seats"
    and "seats \<le> seats_available t" and "py_mul seats (price_per_seat t) = Inr fare"
    and "b = \<lparr>booking_id = next_booking_id s, passenger_name = name, passenger_age = age,
               trip_id = tid, num_seats = seats, total_fare = fare, status = ''CONFIRMED''\<rparr>"
    and "s' = s\<lparr>bookings := AList.update (next_booking_id s) b (bookings s),
                 next_booking_id := next_booking_id s + 1,
                 trips := AList.update tid (t\<lparr>seats_available := seats_available t - seats\<rparr>)
                            (trips s)\<rparr>"
    and "msgs = []"
  using assms
  by (auto simp: book_ticket_def Let_def split: option.splits if_splits sum.splits)

lemma web_book_ticket_SomeE:
  assumes "web_book_ticket s name agev tidv seatsv = Inr (Some b, s')"
  obtains tid seats age t fare where "py_int tidv = Inr tid" and "py_int seatsv = Inr seats"
    and "py_int agev = Inr age"
    and "map_of (trips s) tid = Some t" and "0 < seats"
    and "seats \<le> seats_available t" and "py_mul seats (price_per_seat t) = Inr fare"
    and "b = \<lparr>booking_id = next_booking_id s, passenger_name = name, passenger_age = age,
               trip_id = trip.trip_id t, num_seats = seats, total_fare = fare,
               status = ''CONFIRMED''\<rparr>"
    and "s' = s\<lparr>bookings := AList.update (next_booking_id s) b (bookings s),
                 next_booking_id := next_booking_id s + 1,
                 trips := AList.update tid (t\<lparr>seats_available := seats_available t - seats\<rparr>)
                            (trips s)\<rparr>"
  using assms
  by (auto simp: web_book_ticket_def Let_def split: option.splits if_splits sum.splits)

lemma book_ticket_NoneD:
  assumes "book_ticket s name age tid seats = Inr (msgs, None, s')"
  shows "s' = s"
  using assms
  by (auto simp: book_ticket_def Let_def split: option.splits if_splits sum.splits)

subsection \<open>Association lists\<close>

lemma update_fresh: "map_of xs k = None \<Longrightarrow> AList.update k v xs = xs @ [(k, v)]"
  by (induction xs) (auto split: if_splits)

lemma set_update_subset: "set (AList.update k v xs) \<subseteq> insert (k, v) (set xs)"
  by (induction xs) auto

lemma set_update_distinct:
  assumes "distinct (map fst xs)" and "map_of xs k = Some v"
  shows "set (AList.update k v' xs) = insert (k, v') (set xs - {(k, v)})"
  using assms
proof (induction xs)
  case Nil
  then show ?case by simp
next
  case (Cons x xs)
  then show ?case
    by (cases x) (force split: if_splits simp: image_iff)
qed

lemma map_of_key_unique:
  assumes "distinct (map fst xs)" and "map_of xs k = Some v" and "(k, w) \<in> set xs"
  shows "w = v"
  using assms by (metis map_of_is_SomeI option.inject)

lemma sum_update_present:
  fixes f :: "'b \<Rightarrow> int"
  assumes "map_of xs k = Some v"
  shows "sum_list (map (\<lambda>p. f (snd p)) (AList.update k v' xs))
         = sum_list (map (\<lambda>p. f (snd p)) xs) - f v + f v'"
  using assms by (induction xs) (auto split: if_splits)

lemma keyed_map_of: "keyed R xs ys \<Longrightarrow> rel_option R (map_of xs k) (map_of ys k)"
  unfolding keyed_def by (induction xs ys rule: list_all2_induct) auto

lemma keyed_update:
  "keyed R xs ys \<Longrightarrow> R v v' \<Longrightarrow> keyed R (AList.update k v xs) (AList.update k v' ys)"
  unfolding keyed_def by (induction xs ys rule: list_all2_induct) auto

lemma keyed_values: "keyed R xs ys \<Longrightarrow> list_all2 R (map snd xs) (map snd ys)"
  unfolding keyed_def by (induction xs ys rule: list_all2_induct) auto

lemma keyed_mono: "keyed R xs ys \<Longrightarrow> (\<And>x y. R x y \<Longrightarrow> S x y) \<Longrightarrow> keyed S xs ys"
  unfolding keyed_def by (induction xs ys rule: list_all2_induct) auto

subsection \<open>Float arithmetic on small integers\<close>

lemma bit_length_le: "n < 2 ^ k \<Longrightarrow> bit_length n \<le> k"
proof (induction n arbitrary: k rule: bit_length.induct)
  case (1 n)
  show ?case
  proof (cases "n = 0")
    case True
    then show ?thesis by (simp add: bit_length.simps)
  next
    case False
    with "1.prems" obtain j where k: "k = Suc j" by (cases k) auto
    with "1.prems" have "n div 2 < 2 ^ j" by auto
    with "1.IH" [OF False] have "bit_length (n div 2) \<le> j" .
    with False k show ?thesis by (subst bit_length.simps) simp
  qed
qed

lemma bit_length_bound: "m < 2 ^ bit_length m"
proof (induction m rule: bit_length.induct)
  case (1 n)
  show ?case
  proof (cases "n = 0")
    case True
    then show ?thesis by simp
  next
    case False
    with 1 have "n div 2 < 2 ^ bit_length (n div 2)" by simp
    then have "n < 2 * 2 ^ bit_length (n div 2)" by linarith
    with False show ?thesis by (subst bit_length.simps) simp
  qed
qed

lemma bit_length_pos: "0 < m \<Longrightarrow> 0 < bit_length m"
  by (subst bit_length.simps) simp

lemma bit_length_double: "0 < m \<Longrightarrow> bit_length (2 * m) = Suc (bit_length m)"
  by (subst bit_length.simps) simp

lemma bit_length_shift: "0 < m \<Longrightarrow> bit_length (m * 2 ^ j) = bit_length m + j"
proof (induction j)
  case 0
  then show ?case by simp
next
  case (Suc j)
  then have "bit_length (2 * (m * 2 ^ j)) = Suc (bit_length (m * 2 ^ j))"
    by (intro bit_length_double) simp
  with Suc show ?case by (simp add: mult.commute mult.left_commute)
qed

text \<open>An int of magnitude below \<open>2^1023\<close> converts to a float without overflow.\<close>

lemma round_double_finite:
  assumes "bit_length m \<le> 1023"
  shows "\<exists>m' e'. round_double s m 0 = FinF s m' e'"
  using assms unfolding round_double_def Let_def
  by (auto split: if_splits)

lemma float_of_int_small:
  assumes "\<bar>n\<bar> < 2 ^ 1023"
  shows "\<exists>y. float_of_int n = Inr y"
proof -
  from assms have "nat \<bar>n\<bar> < 2 ^ 1023"
    by (metis nat_less_numeral_power_cancel_iff)
  then have "bit_length (nat \<bar>n\<bar>) \<le> 1023" by (rule bit_length_le)
  from round_double_finite [OF this, of "n < 0"] show ?thesis
    by (auto simp: float_of_int_def)
qed

lemma py_mul_small:
  assumes "\<bar>n\<bar> < 2 ^ 1023"
  shows "\<exists>fare. py_mul n p = Inr fare"
  using float_of_int_small [OF assms] by (cases p) (auto simp: py_mul.simps)

text \<open>A positive integer below \<open>2^53\<close>, scaled by a power of two, rounds to itself.\<close>

lemma round_double_scaled:
  assumes "0 < p" and "bit_length p \<le> 53"
  shows "round_double s (p * 2 ^ j) (- int j)
         = FinF s (p * 2 ^ (53 - bit_length p)) (int (bit_length p) - 53)"
proof -
  let ?b = "bit_length p"
  from assms have b: "0 < ?b" by (simp add: bit_length_pos)
  have q: "max (- int j + int (bit_length (p * 2 ^ j)) - 53) (- 1074) = int ?b - 53"
    using assms b by (simp add: bit_length_shift)
  show ?thesis
  proof (cases "j \<le> 53 - ?b")
    case True
    then have "j + (53 - ?b - j) = 53 - ?b" by arith
    then have "p * 2 ^ j * 2 ^ (53 - ?b - j) = p * 2 ^ (53 - ?b)"
      by (simp only: mult.assoc power_add [symmetric])
    moreover from True assms have "nat (- int j - (int ?b - 53)) = 53 - ?b - j" by simp
    ultimately show ?thesis
      unfolding round_double_def Let_def q using True assms by simp
  next
    case False
    define k where "k = j - (53 - ?b)"
    with False have k: "0 < k" and j: "j = (53 - ?b) + k" by simp_all
    have nk: "nat (int ?b - 53 - - int j) = k" using False assms by (simp add: k_def)
    have m': "p * 2 ^ j div 2 ^ k = p * 2 ^ (53 - ?b)"
      by (simp add: j power_add mult.assoc [symmetric])
    have r: "p * 2 ^ j mod 2 ^ k = 0"
      by (simp add: j power_add mult.assoc [symmetric])
    have "p * 2 ^ (53 - ?b) < 2 ^ ?b * 2 ^ (53 - ?b)"
      using bit_length_bound [of p] by simp
    also have "\<dots> = 2 ^ 53" using assms by (simp add: power_add [symmetric])
    finally have small: "p * 2 ^ (53 - ?b) \<noteq> 2 ^ 53" by simp
    have nle: "\<not> int ?b - 53 \<le> - int j" using False assms by simp
    show ?thesis
      unfolding round_double_def Let_def q nk m' r using assms k small nle by simp
  qed
qed

lemma float_literal_exact:
  assumes "0 < p" and "p < 2 ^ 53"
  shows "float_literal p = FinF False (p * 2 ^ (53 - bit_length p)) (int (bit_length p) - 53)"
  using round_double_scaled [where p = p and j = 0 and s = False]
    bit_length_le [OF assms(2)] assms(1)
  by (simp add: float_literal_def)

lemma float_of_int_exact:
  assumes "0 < n" and "n < 2 ^ 53"
  shows "float_of_int n = Inr (float_literal (nat n))"
proof -
  from assms have "0 < nat n" "nat n < 2 ^ 53"
    by (simp_all add: nat_less_iff)
  from float_literal_exact [OF this] assms show ?thesis
    by (simp add: float_of_int_def float_literal_def)
qed

lemma float_mul_exact:
  assumes "0 < a" and "0 < c" and "a * c < 2 ^ 53"
  shows "float_mul (float_literal a) (float_literal c) = float_literal (a * c)"
proof -
  from assms have "a \<le> a * c" and "c \<le> a * c" by simp_all
  with assms have a: "a < 2 ^ 53" and c: "c < 2 ^ 53" by linarith+
  let ?ba = "bit_length a" and ?bc = "bit_length c"
  from a c have ba: "?ba \<le> 53" and bc: "?bc \<le> 53" by (simp_all add: bit_length_le)
  from assms have ac: "0 < a * c" "bit_length (a * c) \<le> 53" by (simp_all add: bit_length_le)
  have fa: "float_literal a = FinF False (a * 2 ^ (53 - ?ba)) (int ?ba - 53)"
    using assms(1) a by (rule float_literal_exact)
  have fc: "float_literal c = FinF False (c * 2 ^ (53 - ?bc)) (int ?bc - 53)"
    using assms(2) c by (rule float_literal_exact)
  have fac: "float_literal (a * c)
      = FinF False (a * c * 2 ^ (53 - bit_length (a * c))) (int (bit_length (a * c)) - 53)"
    using ac(1) assms(3) by (rule float_literal_exact)
  from ba bc have "(53 - ?ba) + (53 - ?bc) = 106 - ?ba - ?bc" by arith
  then have pw: "(2::nat) ^ (53 - ?ba) * 2 ^ (53 - ?bc) = 2 ^ (106 - ?ba - ?bc)"
    by (simp only: power_add [symmetric])
  have "a * 2 ^ (53 - ?ba) * (c * 2 ^ (53 - ?bc))
      = a * c * (2 ^ (53 - ?ba) * 2 ^ (53 - ?bc))"
    by (simp only: mult_ac)
  then have prod: "a * 2 ^ (53 - ?ba) * (c * 2 ^ (53 - ?bc)) = a * c * 2 ^ (106 - ?ba - ?bc)"
    by (simp only: pw)
  from ba bc have ex: "int ?ba - 53 + (int ?bc - 53) = - int (106 - ?ba - ?bc)" by arith
  have "float_mul (float_literal a) (float_literal c)
      = round_double False (a * c * 2 ^ (106 - ?ba - ?bc)) (- int (106 - ?ba - ?bc))"
    by (simp only: fa fc float_mul.simps prod ex simp_thms)
  also have "\<dots> = float_literal (a * c)"
    by (simp only: fac round_double_scaled [OF ac])
  finally show ?thesis .
qed

lemma py_mul_float_exact:
  assumes "0 < n" and "0 < p" and "n * int p < 2 ^ 53"
  shows "py_mul n (PyFloat (float_literal p)) = Inr (PyFloat (float_literal (nat n * p)))"
proof -
  from assms have "n \<le> n * int p" by simp
  with assms have n: "n < 2 ^ 53" by linarith
  from assms have "int (nat n * p) < int (2 ^ 53)" by simp
  then have "nat n * p < 2 ^ 53" by (simp only: of_nat_less_iff)
  with assms n show ?thesis
    by (simp add: py_mul.simps float_of_int_exact float_mul_exact)
qed

lemma py_eq_float_literal:
  assumes "0 < p" and "p < 2 ^ 53"
  shows "py_eq (PyFloat (float_literal p)) (PyInt (int p))"
proof -
  from assms have "bit_length p \<le> 53" by (simp add: bit_length_le)
  then show ?thesis
    by (auto simp: float_literal_exact [OF assms] nat_diff_distrib')
qed

subsection \<open>Seat conservation\<close>

lemma confirmed_seats_counted:
  "confirmed_seats s k = sum_list (map (\<lambda>p. counted k (snd p)) (bookings s))"
  by (simp add: confirmed_seats_def list_all_bookings_def counted_def sum_list_map_filter'
      comp_def)

lemma counted_nonneg:
  assumes "\<forall>(k, b) \<in> set bs. 0 < num_seats b"
  shows "0 \<le> sum_list (map (\<lambda>p. counted j (snd p)) bs)"
  using assms by (induction bs) (auto simp: counted_def)

lemma ledger_inv_init: "ledger_inv init"
  by (simp add: ledger_inv_def confirmed_seats_counted seed_defs)

lemma ledger_inv_fresh:
  assumes "ledger_inv s"
  shows "map_of (bookings s) (next_booking_id s) = None"
proof (rule ccontr)
  assume "map_of (bookings s) (next_booking_id s) \<noteq> None"
  then obtain b where "(next_booking_id s, b) \<in> set (bookings s)"
    by (auto dest: map_of_SomeD)
  with assms show False by (auto simp: ledger_inv_def)
qed

lemma ledger_inv_seats_le:
  assumes "ledger_inv s" and "map_of (trips s) k = Some t"
  shows "seats_available t \<le> total_seats t" and "trip.trip_id t = k"
proof -
  from assms(2) have "(k, t) \<in> set (trips s)" by (rule map_of_SomeD)
  with assms(1) have eq: "seats_available t + confirmed_seats s k = total_seats t"
    and id: "trip.trip_id t = k"
    by (auto simp: ledger_inv_def)
  from assms(1) have "0 \<le> confirmed_seats s k"
    unfolding confirmed_seats_counted
    by (intro counted_nonneg) (auto simp: ledger_inv_def)
  with eq show "seats_available t \<le> total_seats t" by simp
  from id show "trip.trip_id t = k" .
qed

lemma ledger_inv_book_ticket:
  assumes inv: "ledger_inv s"
    and booked: "book_ticket s name age tid seats = Inr (msgs, Some b, s')"
  shows "ledger_inv s'"
proof -
  from booked obtain t fare where t: "map_of (trips s) tid = Some t" and pos: "0 < seats"
    and b: "b = \<lparr>booking_id = next_booking_id s, passenger_name = name, passenger_age = age,
               trip_id = tid, num_seats = seats, total_fare = fare, status = ''CONFIRMED''\<rparr>"
    and s': "s' = s\<lparr>bookings := AList.update (next_booking_id s) b (bookings s),
                 next_booking_id := next_booking_id s + 1,
                 trips := AList.update tid (t\<lparr>seats_available := seats_available t - seats\<rparr>)
                            (trips s)\<rparr>"
    by (rule book_ticket_SomeE)
  let ?t' = "t\<lparr>seats_available := seats_available t - seats\<rparr>"
  from inv have dist: "distinct (map fst (trips s))" by (simp add: ledger_inv_def)
  have bookings': "bookings s' = bookings s @ [(next_booking_id s, b)]"
    by (simp add: s' update_fresh [OF ledger_inv_fresh [OF inv]])
  have trips': "set (trips s') = insert (tid, ?t') (set (trips s) - {(tid, t)})"
    by (simp add: s' set_update_distinct [OF dist t])
  have conf: "confirmed_seats s' k = confirmed_seats s k + (if k = tid then seats else 0)" for k
    by (simp add: confirmed_seats_counted bookings' counted_def b)
  have "distinct (map fst (trips s'))"
    by (simp add: s' distinct_update dist)
  moreover have "trip.trip_id x = k \<and> seats_available x + confirmed_seats s' k = total_seats x"
    if "(k, x) \<in> set (trips s')" for k x
  proof (cases "(k, x) = (tid, ?t')")
    case True
    from t have "(tid, t) \<in> set (trips s)" by (rule map_of_SomeD)
    with inv have "trip.trip_id t = tid
        \<and> seats_available t + confirmed_seats s tid = total_seats t"
      by (auto simp: ledger_inv_def)
    with True show ?thesis by (simp add: conf)
  next
    case False
    with that trips' have old: "(k, x) \<in> set (trips s)" and ne: "(k, x) \<noteq> (tid, t)" by auto
    from ne map_of_key_unique [OF dist t] old have "k \<noteq> tid" by auto
    with inv old show ?thesis by (auto simp: ledger_inv_def conf)
  qed
  moreover have "k < next_booking_id s' \<and> 0 < num_seats x
        \<and> (status x = ''CONFIRMED'' \<or> status x = ''CANCELLED'')"
    if "(k, x) \<in> set (bookings s')" for k x
  proof -
    have next': "next_booking_id s' = next_booking_id s + 1" by (simp add: s')
    from that have "(k, x) \<in> set (bookings s) \<or> (k, x) = (next_booking_id s, b)"
      by (auto simp: bookings')
    with inv pos show ?thesis by (auto simp: ledger_inv_def next' b)
  qed
  ultimately show ?thesis unfolding ledger_inv_def by blast
qed

lemma ledger_inv_cancel_booking:
  assumes inv: "ledger_inv s"
    and cancelled: "cancel_booking s bid = (msgs, r, s')"
  shows "ledger_inv s'"
proof (cases r)
  case False
  with cancelled have "s' = s"
    by (auto simp: cancel_booking_def Let_def split: option.splits if_splits)
  with inv show ?thesis by simp
next
  case True
  with cancelled obtain b where b: "map_of (bookings s) bid = Some b"
    and live: "status b \<noteq> ''CANCELLED''"
    and s': "s' = (case map_of (trips s) (trip_id b) of
                     None \<Rightarrow> s
                   | Some t \<Rightarrow>
                       s\<lparr>trips := AList.update (trip_id b)
                                    (t\<lparr>seats_available := seats_available t + num_seats b\<rparr>)
                                    (trips s)\<rparr>)
                  \<lparr>bookings := AList.update bid (b\<lparr>status := ''CANCELLED''\<rparr>) (bookings s)\<rparr>"
    by (auto simp: cancel_booking_def Let_def split: option.splits if_splits)
  from b have b_in: "(bid, b) \<in> set (bookings s)" by (rule map_of_SomeD)
  with inv live have confirmed: "status b = ''CONFIRMED''" and bid: "bid < next_booking_id s"
    and pos: "0 < num_seats b"
    by (auto simp: ledger_inv_def)
  from inv have dist: "distinct (map fst (trips s))" by (simp add: ledger_inv_def)
  have bookings': "bookings s' = AList.update bid (b\<lparr>status := ''CANCELLED''\<rparr>) (bookings s)"
    by (simp add: s' split: option.splits)
  have next': "next_booking_id s' = next_booking_id s"
    by (simp add: s' split: option.splits)
  have conf: "confirmed_seats s' k
        = confirmed_seats s k - (if k = trip_id b then num_seats b else 0)" for k
  proof -
    have "confirmed_seats s' k
        = confirmed_seats s k - counted k b + counted k (b\<lparr>status := ''CANCELLED''\<rparr>)"
      by (simp add: confirmed_seats_counted bookings' sum_update_present [OF b, of "counted k"])
    then show ?thesis by (simp add: counted_def confirmed)
  qed
  have bookings_ok: "k < next_booking_id s' \<and> 0 < num_seats x
        \<and> (status x = ''CONFIRMED'' \<or> status x = ''CANCELLED'')"
    if "(k, x) \<in> set (bookings s')" for k x
  proof -
    from that set_update_subset [of bid "b\<lparr>status := ''CANCELLED''\<rparr>" "bookings s"]
    have "(k, x) = (bid, b\<lparr>status := ''CANCELLED''\<rparr>) \<or> (k, x) \<in> set (bookings s)"
      by (auto simp: bookings')
    with inv bid pos show ?thesis by (auto simp: ledger_inv_def next')
  qed
  show ?thesis
  proof (cases "map_of (trips s) (trip_id b)")
    case None
    then have trips': "trips s' = trips s" by (simp add: s')
    have "k \<noteq> trip_id b" if "(k, x) \<in> set (trips s)" for k x
      using that None by (auto simp: map_of_eq_None_iff image_iff)
    with inv have "trip.trip_id x = k \<and> seats_available x + confirmed_seats s' k = total_seats x"
      if "(k, x) \<in> set (trips s')" for k x
      using that by (auto simp: ledger_inv_def conf trips')
    with bookings_ok dist show ?thesis unfolding ledger_inv_def trips' by blast
  next
    case (Some t)
    let ?t' = "t\<lparr>seats_available := seats_available t + num_seats b\<rparr>"
    from Some have trips_eq: "trips s' = AList.update (trip_id b) ?t' (trips s)"
      by (simp add: s')
    have trips': "set (trips s') = insert (trip_id b, ?t') (set (trips s) - {(trip_id b, t)})"
      by (simp add: trips_eq set_update_distinct [OF dist Some])
    have "distinct (map fst (trips s'))"
      by (simp add: trips_eq distinct_update dist)
    moreover have "trip.trip_id x = k \<and> seats_available x + confirmed_seats s' k = total_seats x"
      if "(k, x) \<in> set (trips s')" for k x
    proof (cases "(k, x) = (trip_id b, ?t')")
      case True
      from Some have "(trip_id b, t) \<in> set (trips s)" by (rule map_of_SomeD)
      with inv have "trip.trip_id t = trip_id b
          \<and> seats_available t + confirmed_seats s (trip_id b) = total_seats t"
        by (auto simp: ledger_inv_def)
      with True show ?thesis by (simp add: conf)
    next
      case False
      with that trips' have old: "(k, x) \<in> set (trips s)" and ne: "(k, x) \<noteq> (trip_id b, t)"
        by auto
      from ne map_of_key_unique [OF dist Some] old have "k \<noteq> trip_id b" by auto
      with inv old show ?thesis by (auto simp: ledger_inv_def conf)
    qed
    ultimately show ?thesis using bookings_ok unfolding ledger_inv_def by blast
  qed
qed

lemma ledger_inv_step:
  assumes "ledger_inv s" and "step x s = (msgs, r, s')"
  shows "ledger_inv s'"
proof (cases x)
  case (BookTicket name age tid seats)
  show ?thesis
  proof (cases "book_ticket s name age tid seats")
    case (Inl err)
    with assms BookTicket show ?thesis by simp
  next
    case (Inr out)
    obtain ms rb sb where out: "out = (ms, rb, sb)" by (cases out)
    with Inr assms(2) BookTicket have s': "s' = sb" by simp
    show ?thesis
    proof (cases rb)
      case None
      with Inr out have "sb = s" by (auto dest: book_ticket_NoneD)
      with assms(1) s' show ?thesis by simp
    next
      case (Some b)
      with Inr out assms(1) s' show ?thesis by (auto intro: ledger_inv_book_ticket)
    qed
  qed
next
  case (CancelBooking bid)
  with assms show ?thesis
    by (auto split: prod.splits intro: ledger_inv_cancel_booking)
qed (use assms in auto)

lemma ledger_inv_run:
  assumes "ledger_inv s"
  shows "ledger_inv (snd (run xs s))"
  using assms
proof (induction xs arbitrary: s)
  case Nil
  then show ?case by simp
next
  case (Cons x xs)
  obtain msgs r s' where st: "step x s = (msgs, r, s')" by (cases "step x s")
  with Cons.prems have "ledger_inv s'" by (auto intro: ledger_inv_step)
  then have "ledger_inv (snd (run xs s'))" by (rule Cons.IH)
  with st show ?case by (auto split: prod.splits)
qed

text \<open>
  C1. Seat conservation. Start from the seeded system of the console program and make
  any sequence of calls (bookings and cancellations, and listings, which change
  nothing). Then for every trip of the catalog, \<open>seats_available\<close> plus the sum of
  \<open>num_seats\<close> over the bookings with this trip's id and status \<open>CONFIRMED\<close> equals
  \<open>total_seats\<close>.
\<close>

theorem seat_conservation:
  "\<forall>t \<in> set (list_all_trips (snd (run ops init))).
     seats_available t + confirmed_seats (snd (run ops init)) (trip.trip_id t) = total_seats t"
proof -
  have "ledger_inv (snd (run ops init))"
    by (rule ledger_inv_run) (rule ledger_inv_init)
  then show ?thesis
    by (fastforce simp: ledger_inv_def list_all_trips_def)
qed

text \<open>
  After a booking of five seats on trip 1, its cancellation and the same booking again,
  trip 1 has 35 of 40 seats left, so the confirmed bookings on it hold 5 seats.
\<close>

lemma asha_run_seats:
  "map (\<lambda>t. (trip.trip_id t, seats_available t, total_seats t))
     (list_all_trips (snd (run [BookTicket ''Asha'' 30 1 5, CancelBooking 1,
                                BookTicket ''Asha'' 30 1 5] init)))
   = [(1, 35, 40), (2, 40, 40), (3, 50, 50), (4, 40, 40), (5, 50, 50)]"
  by (simp add: book_ticket_def cancel_booking_def seed_defs fare_asha Let_def
      list_all_trips_def)

theorem seat_conservation_witness:
  "map (\<lambda>t. (trip.trip_id t, seats_available t, total_seats t))
     (list_all_trips (snd (run [BookTicket ''Asha'' 30 1 5, CancelBooking 1,
                                BookTicket ''Asha'' 30 1 5] init)))
   = [(1, 35, 40), (2, 40, 40), (3, 50, 50), (4, 40, 40), (5, 50, 50)]
   \<and> confirmed_seats (snd (run [BookTicket ''Asha'' 30 1 5, CancelBooking 1,
                                BookTicket ''Asha'' 30 1 5] init)) 1 = 5"
proof -
  let ?s = "snd (run [BookTicket ''Asha'' 30 1 5, CancelBooking 1,
                      BookTicket ''Asha'' 30 1 5] init)"
  from asha_run_seats obtain t ts where ts: "list_all_trips ?s = t # ts"
    and t: "trip.trip_id t = 1" "seats_available t = 35" "total_seats t = 40"
    by (cases "list_all_trips ?s") auto
  then have "t \<in> set (list_all_trips ?s)" by simp
  with seat_conservation [of "[BookTicket ''Asha'' 30 1 5, CancelBooking 1,
                      BookTicket ''Asha'' 30 1 5]"]
  have "seats_available t + confirmed_seats ?s (trip.trip_id t) = total_seats t"
    by blast
  with t have "confirmed_seats ?s 1 = 5" by simp
  with asha_run_seats show ?thesis by blast
qed

subsection \<open>Booking, then cancelling\<close>

text \<open>
  C2. Round trip. In every state, when \<open>book_ticket\<close> succeeds and returns the booking
  \<open>b\<close>, cancelling \<open>b\<close>'s id at once succeeds (it returns \<open>True\<close> and prints nothing), the
  trip that \<open>b\<close> refers to exists, and its \<open>seats_available\<close> is again what it was
  before the booking.
\<close>

theorem book_then_cancel:
  assumes "book_ticket s name age tid seats = Inr (msgs, Some b, s')"
  shows "\<exists>s''. cancel_booking s' (booking_id b) = ([], True, s'')
           \<and> seats_of s (trip_id b) \<noteq> None
           \<and> seats_of s'' (trip_id b) = seats_of s (trip_id b)"
proof -
  from assms obtain t fare where t: "map_of (trips s) tid = Some t"
    and b: "b = \<lparr>booking_id = next_booking_id s, passenger_name = name, passenger_age = age,
               trip_id = tid, num_seats = seats, total_fare = fare, status = ''CONFIRMED''\<rparr>"
    and s': "s' = s\<lparr>bookings := AList.update (next_booking_id s) b (bookings s),
                 next_booking_id := next_booking_id s + 1,
                 trips := AList.update tid (t\<lparr>seats_available := seats_available t - seats\<rparr>)
                            (trips s)\<rparr>"
    by (rule book_ticket_SomeE)
  show ?thesis
    by (simp add: cancel_booking_def Let_def update_conv' seats_of_def b s' t)
qed

text \<open>The scenario of the specification: 40 seats, 35 after the booking, 40 again.\<close>

theorem book_then_cancel_witness:
  "\<exists>b s' s''. book_ticket init ''Asha'' 30 1 5 = Inr ([], Some b, s')
     \<and> seats_of s' 1 = Some 35
     \<and> cancel_booking s' (booking_id b) = ([], True, s'')
     \<and> seats_of s'' 1 = Some 40"
proof -
  from book_asha obtain b s' where
    booked: "book_ticket init ''Asha'' 30 1 5 = Inr ([], Some b, s')"
    and b: "trip_id b = 1"
    and s': "trips s' = AList.update 1
                 \<lparr>trip.trip_id = 1, source = ''Bhopal'', destination = ''Indore'',
                  date = ''2025-12-10'', time = ''09:00'', total_seats = 40,
                  seats_available = 35, price_per_seat = PyFloat (float_literal 450)\<rparr>
                 (trips init)"
    by simp
  have before: "seats_of init 1 = Some 40" by (simp add: seats_of_def trip_1_init)
  have after: "seats_of s' 1 = Some 35" by (simp add: seats_of_def s' update_conv')
  from book_then_cancel [OF booked] obtain s'' where
    c: "cancel_booking s' (booking_id b) = ([], True, s'')"
    and r: "seats_of s'' (trip_id b) = seats_of init (trip_id b)"
    by blast
  from r have r': "seats_of s'' 1 = Some 40" by (simp only: b before)
  from booked after c r' show ?thesis by blast
qed

subsection \<open>Rejected bookings\<close>

text \<open>
  Where the line for too few seats cannot be built, the console program raises instead
  of returning.
\<close>

lemma book_ticket_long_count:
  assumes "map_of (trips s) tid = Some t" and "0 < seats" and "seats_available t < seats"
    and "\<not> (int_str_ok (seats_available t) \<and> int_str_ok seats)"
  shows "book_ticket s name age tid seats = Inl ValueError"
  using assms by (simp add: book_ticket_def)

text \<open>
  C3, as amended. In every state and for every trip, \<open>book_ticket\<close> with more seats than
  the trip has available, both counts having at most 4300 digits, fails and leaves the
  system as it was. The console program prints "Only \<open>a\<close> seats available on this trip.
  Requested: \<open>r\<close>", with the available count \<open>a\<close>, before it returns \<open>None\<close>, whenever
  the requested count is positive; a count that is zero or negative is reported as such,
  and it cannot exceed an available count that is not negative, as the data model has
  it. The web program returns \<open>None\<close> and reports nothing, for counts of any size.
\<close>

theorem insufficient_seats_rejected:
  assumes "map_of (trips s) tid = Some t" and "seats_available t < seats"
  shows "(seats \<le> 0 \<longrightarrow>
            book_ticket s name age tid seats = Inr ([SeatsAtLeastOne], None, s))
         \<and> (0 < seats \<and> int_str_ok (seats_available t) \<and> int_str_ok seats \<longrightarrow>
              book_ticket s name age tid seats =
                Inr ([OnlySeatsAvailable (seats_available t) seats], None, s))
         \<and> (py_int tidv = Inr tid \<longrightarrow> py_int seatsv = Inr seats \<longrightarrow>
              web_book_ticket s name agev tidv seatsv = Inr (None, s))"
  using assms by (simp add: book_ticket_def web_book_ticket_def)

theorem insufficient_seats_rejected_witness:
  "book_ticket init ''Asha'' 30 1 41 = Inr ([OnlySeatsAvailable 40 41], None, init)
   \<and> web_book_ticket web_init ''Asha'' (StrV ''30'') (StrV ''1'') (StrV ''41'')
       = Inr (None, web_init)"
  using insufficient_seats_rejected [OF trip_1_init, where seats = 41 and name = "''Asha''"
      and age = 30]
    insufficient_seats_rejected [OF trip_1_web_init, where seats = 41 and name = "''Asha''"
      and tidv = "StrV ''1''" and seatsv = "StrV ''41''" and agev = "StrV ''30''"]
    parsed_fields int_str_ok_small [of 40] int_str_ok_small [of 41]
  by simp

text \<open>
  C3 as stated fails on the web program: a request for 41 of the 40 seats of trip 1
  returns \<open>None\<close>, which carries no count and is also what a request for 0 seats and a
  request for an unknown trip return.
\<close>

theorem web_insufficient_seats_silent:
  "web_book_ticket web_init ''Asha'' (StrV ''30'') (StrV ''1'') (StrV ''41'')
     = Inr (None, web_init)
   \<and> web_book_ticket web_init ''Asha'' (StrV ''30'') (StrV ''1'') (StrV ''0'')
     = Inr (None, web_init)
   \<and> web_book_ticket web_init ''Asha'' (StrV ''30'') (StrV ''99'') (StrV ''41'')
     = Inr (None, web_init)
   \<and> seats_of web_init 1 = Some 40"
  by (simp add: web_book_ticket_def parsed_fields [unfolded py_int.simps] trip_1_web_init
      seats_of_def seed_defs)

text \<open>
  C4. In every state, \<open>book_ticket\<close> with a seat count that is zero or negative fails and
  changes nothing, whatever the state of the trip: the console program returns \<open>None\<close>,
  after the line "Number of seats must be at least 1." whenever the trip exists (an
  unknown trip id is reported first, as "Invalid trip ID."); the web program returns
  \<open>None\<close>. The system after the call is the system before it.
\<close>

theorem invalid_seat_count_rejected:
  assumes "seats \<le> 0"
  shows "book_ticket s name age tid seats =
           Inr (if map_of (trips s) tid = None then [InvalidTripId] else [SeatsAtLeastOne],
                None, s)
         \<and> (py_int tidv = Inr tid \<longrightarrow> py_int seatsv = Inr seats \<longrightarrow>
              web_book_ticket w name agev tidv seatsv = Inr (None, w))"
  using assms by (simp add: book_ticket_def web_book_ticket_def split: option.splits)

theorem invalid_seat_count_rejected_witness:
  "book_ticket init ''Asha'' 30 1 (- 2) = Inr ([SeatsAtLeastOne], None, init)
   \<and> web_book_ticket web_init ''Asha'' (StrV ''30'') (StrV ''1'') (StrV ''0'')
       = Inr (None, web_init)"
proof -
  have found: "map_of (trips init) 1 \<noteq> None" by (simp add: trip_1_init)
  show ?thesis
    using invalid_seat_count_rejected [where seats = "- 2" and s = init and name = "''Asha''"
        and age = 30 and tid = 1]
      invalid_seat_count_rejected [where seats = 0 and tid = 1 and tidv = "StrV ''1''"
        and seatsv = "StrV ''0''" and w = web_init and name = "''Asha''"
        and agev = "StrV ''30''"]
      found parsed_fields by simp
qed

subsection \<open>Repeated cancellation\<close>

text \<open>
  C5. In every state in which the booking stored under an id has status \<open>CANCELLED\<close>,
  \<open>cancel_booking\<close> on that id fails and changes nothing: the console program prints
  "Booking is already cancelled." and returns \<open>False\<close>, the web program returns
  \<open>False\<close>. Hence a second call on the same id, whatever the first call did, returns
  \<open>False\<close> and leaves the system as the first call left it.
\<close>

theorem cancel_already_cancelled:
  "(map_of (bookings s) bid = Some b \<and> status b = ''CANCELLED'' \<longrightarrow>
      cancel_booking s bid = ([AlreadyCancelled], False, s)
      \<and> (py_int bidv = Inr bid \<longrightarrow> web_cancel_booking s bidv = Inr (False, s)))
   \<and> (cancel_booking s bid = (msgs, r, s') \<longrightarrow>
        cancel_booking s' bid = (if r then [AlreadyCancelled] else msgs, False, s'))
   \<and> (web_cancel_booking w bidv = Inr (r, w') \<longrightarrow>
        web_cancel_booking w' bidv = Inr (False, w'))"
proof (intro conjI impI)
  assume "cancel_booking s bid = (msgs, r, s')"
  then show "cancel_booking s' bid = (if r then [AlreadyCancelled] else msgs, False, s')"
    by (auto simp: cancel_booking_def Let_def update_conv' split: option.splits if_splits)
next
  assume "web_cancel_booking w bidv = Inr (r, w')"
  then show "web_cancel_booking w' bidv = Inr (False, w')"
    by (auto simp: web_cancel_booking_def Let_def update_conv'
        split: option.splits if_splits sum.splits)
qed (simp_all add: cancel_booking_def web_cancel_booking_def)

text \<open>
  The scenario of the specification: the first cancellation of booking 1 succeeds and
  gives the seats back, the second fails and changes nothing.
\<close>

theorem cancel_already_cancelled_witness:
  "map (fst \<circ> snd)
     [cancel_booking (snd (run [BookTicket ''Asha'' 30 1 5] init)) 1,
      cancel_booking (snd (run [BookTicket ''Asha'' 30 1 5, CancelBooking 1] init)) 1]
     = [True, False]
   \<and> cancel_booking (snd (run [BookTicket ''Asha'' 30 1 5, CancelBooking 1] init)) 1
     = ([AlreadyCancelled], False, snd (run [BookTicket ''Asha'' 30 1 5, CancelBooking 1] init))
   \<and> seats_of (snd (run [BookTicket ''Asha'' 30 1 5, CancelBooking 1] init)) 1 = Some 40"
proof -
  let ?sb = "snd (run [BookTicket ''Asha'' 30 1 5] init)"
  obtain msgs r s1 where first: "cancel_booking ?sb 1 = (msgs, r, s1)"
    by (cases "cancel_booking ?sb 1")
  have "fst (snd (cancel_booking ?sb 1)) = True"
    by (simp add: book_asha cancel_booking_def Let_def)
  with first have r: "r = True" by simp
  have s1: "snd (run [BookTicket ''Asha'' 30 1 5, CancelBooking 1] init) = s1"
    using first by (simp add: book_asha)
  have seats: "seats_of s1 1 = Some 40"
    using first by (auto simp: book_asha cancel_booking_def Let_def seats_of_def update_conv')
  from cancel_already_cancelled [where s = ?sb and bid = 1 and msgs = msgs and r = r
      and s' = s1] first r
  have "cancel_booking s1 1 = ([AlreadyCancelled], False, s1)" by simp
  with first r seats show ?thesis unfolding s1 by simp
qed

subsection \<open>Searching\<close>














subsection \<open>What a successful booking does\<close>

text \<open>
  C7. In every state, when \<open>book_ticket\<close> succeeds, the booking it returns has the next
  booking id (the counter, which then moves on by one), the fare \<open>seats * price_per_seat\<close>
  of the trip and status \<open>CONFIRMED\<close>; the trip has \<open>seats\<close> seats fewer; and the booking
  is in the ledger under its id. This holds for the console program and for the web
  program. On the seeded catalog, booking five seats on trip 1 for Asha, aged 30, yields
  booking 1 with fare 2250.0 (the web program: the int 2250, which equals 2250.0) and
  leaves trip 1 with 35 seats.
\<close>

theorem book_ticket_success:
  "(book_ticket s name age tid seats = Inr (msgs, Some b, s') \<longrightarrow>
      (\<exists>t fare. map_of (trips s) tid = Some t
         \<and> py_mul seats (price_per_seat t) = Inr fare
         \<and> b = \<lparr>booking_id = next_booking_id s, passenger_name = name, passenger_age = age,
                 trip_id = tid, num_seats = seats, total_fare = fare,
                 status = ''CONFIRMED''\<rparr>
         \<and> next_booking_id s' = next_booking_id s + 1
         \<and> seats_of s' tid = Some (seats_available t - seats)
         \<and> get_booking s' (booking_id b) = Some b
         \<and> b \<in> set (list_all_bookings s')))
   \<and> (web_book_ticket w name agev tidv seatsv = Inr (Some wb, w') \<longrightarrow>
      (\<exists>age tid seats t fare. py_int agev = Inr age \<and> py_int tidv = Inr tid
         \<and> py_int seatsv = Inr seats \<and> map_of (trips w) tid = Some t
         \<and> py_mul seats (price_per_seat t) = Inr fare
         \<and> wb = \<lparr>booking_id = next_booking_id w, passenger_name = name, passenger_age = age,
                  trip_id = trip.trip_id t, num_seats = seats, total_fare = fare,
                  status = ''CONFIRMED''\<rparr>
         \<and> next_booking_id w' = next_booking_id w + 1
         \<and> seats_of w' tid = Some (seats_available t - seats)
         \<and> map_of (bookings w') (booking_id wb) = Some wb
         \<and> wb \<in> set (web_list_all_bookings w')))
   \<and> (\<exists>s1. book_ticket init ''Asha'' 30 1 5 =
          Inr ([], Some \<lparr>booking_id = 1, passenger_name = ''Asha'', passenger_age = 30,
                          trip_id = 1, num_seats = 5,
                          total_fare = PyFloat (float_literal 2250),
                          status = ''CONFIRMED''\<rparr>, s1)
          \<and> seats_of s1 1 = Some 35)
   \<and> (\<exists>w1. web_book_ticket web_init ''Asha'' (StrV ''30'') (StrV ''1'') (StrV ''5'') =
          Inr (Some \<lparr>booking_id = 1, passenger_name = ''Asha'', passenger_age = 30,
                      trip_id = 1, num_seats = 5, total_fare = PyInt 2250,
                      status = ''CONFIRMED''\<rparr>, w1)
          \<and> seats_of w1 1 = Some 35)
   \<and> py_eq (PyInt 2250) (PyFloat (float_literal 2250))"
proof (intro conjI impI)
  assume "book_ticket s name age tid seats = Inr (msgs, Some b, s')"
  then obtain t fare where t: "map_of (trips s) tid = Some t"
    and fare: "py_mul seats (price_per_seat t) = Inr fare"
    and b: "b = \<lparr>booking_id = next_booking_id s, passenger_name = name, passenger_age = age,
               trip_id = tid, num_seats = seats, total_fare = fare, status = ''CONFIRMED''\<rparr>"
    and s': "s' = s\<lparr>bookings := AList.update (next_booking_id s) b (bookings s),
                 next_booking_id := next_booking_id s + 1,
                 trips := AList.update tid (t\<lparr>seats_available := seats_available t - seats\<rparr>)
                            (trips s)\<rparr>"
    by (rule book_ticket_SomeE)
  have look: "map_of (bookings s') (booking_id b) = Some b"
    by (simp add: s' b update_conv')
  then have "(booking_id b, b) \<in> set (bookings s')" by (rule map_of_SomeD)
  then have "b \<in> set (list_all_bookings s')" by (force simp: list_all_bookings_def)
  with t fare b look show "\<exists>t fare. map_of (trips s) tid = Some t
         \<and> py_mul seats (price_per_seat t) = Inr fare
         \<and> b = \<lparr>booking_id = next_booking_id s, passenger_name = name, passenger_age = age,
                 trip_id = tid, num_seats = seats, total_fare = fare,
                 status = ''CONFIRMED''\<rparr>
         \<and> next_booking_id s' = next_booking_id s + 1
         \<and> seats_of s' tid = Some (seats_available t - seats)
         \<and> get_booking s' (booking_id b) = Some b
         \<and> b \<in> set (list_all_bookings s')"
    by (simp add: s' seats_of_def update_conv' get_booking_def)
next
  assume "web_book_ticket w name agev tidv seatsv = Inr (Some wb, w')"
  then obtain tid seats age t fare where parsed: "py_int tidv = Inr tid"
    "py_int seatsv = Inr seats" "py_int agev = Inr age"
    and t: "map_of (trips w) tid = Some t"
    and fare: "py_mul seats (price_per_seat t) = Inr fare"
    and b: "wb = \<lparr>booking_id = next_booking_id w, passenger_name = name, passenger_age = age,
               trip_id = trip.trip_id t, num_seats = seats, total_fare = fare,
               status = ''CONFIRMED''\<rparr>"
    and w': "w' = w\<lparr>bookings := AList.update (next_booking_id w) wb (bookings w),
                 next_booking_id := next_booking_id w + 1,
                 trips := AList.update tid (t\<lparr>seats_available := seats_available t - seats\<rparr>)
                            (trips w)\<rparr>"
    by (rule web_book_ticket_SomeE)
  have look: "map_of (bookings w') (booking_id wb) = Some wb"
    by (simp add: w' b update_conv')
  then have "(booking_id wb, wb) \<in> set (bookings w')" by (rule map_of_SomeD)
  then have "wb \<in> set (web_list_all_bookings w')" by (force simp: web_list_all_bookings_def)
  with parsed t fare b look
  show "\<exists>age tid seats t fare. py_int agev = Inr age \<and> py_int tidv = Inr tid
         \<and> py_int seatsv = Inr seats \<and> map_of (trips w) tid = Some t
         \<and> py_mul seats (price_per_seat t) = Inr fare
         \<and> wb = \<lparr>booking_id = next_booking_id w, passenger_name = name, passenger_age = age,
                  trip_id = trip.trip_id t, num_seats = seats, total_fare = fare,
                  status = ''CONFIRMED''\<rparr>
         \<and> next_booking_id w' = next_booking_id w + 1
         \<and> seats_of w' tid = Some (seats_available t - seats)
         \<and> map_of (bookings w') (booking_id wb) = Some wb
         \<and> wb \<in> set (web_list_all_bookings w')"
    by (simp add: w' seats_of_def update_conv')
next
  show "\<exists>s1. book_ticket init ''Asha'' 30 1 5 =
          Inr ([], Some \<lparr>booking_id = 1, passenger_name = ''Asha'', passenger_age = 30,
                          trip_id = 1, num_seats = 5,
                          total_fare = PyFloat (float_literal 2250),
                          status = ''CONFIRMED''\<rparr>, s1)
          \<and> seats_of s1 1 = Some 35"
    by (simp add: book_asha seats_of_def update_conv')
next
  show "\<exists>w1. web_book_ticket web_init ''Asha'' (StrV ''30'') (StrV ''1'') (StrV ''5'') =
          Inr (Some \<lparr>booking_id = 1, passenger_name = ''Asha'', passenger_age = 30,
                      trip_id = 1, num_seats = 5, total_fare = PyInt 2250,
                      status = ''CONFIRMED''\<rparr>, w1)
          \<and> seats_of w1 1 = Some 35"
    by (simp add: web_book_ticket_def parsed_fields [unfolded py_int.simps] trip_1_web_init
        counters_init Let_def py_mul.simps seats_of_def update_conv')
next
  show "py_eq (PyInt 2250) (PyFloat (float_literal 2250))" by (rule py_eq_2250)
qed

theorem book_ticket_success_witness:
  "\<exists>b s'. book_ticket init ''Asha'' 30 1 5 = Inr ([], Some b, s')
     \<and> booking_id b = 1 \<and> total_fare b = PyFloat (float_literal 2250)
     \<and> status b = ''CONFIRMED'' \<and> next_booking_id s' = 2 \<and> seats_of s' 1 = Some 35
     \<and> get_booking s' 1 = Some b"
proof -
  from book_asha obtain b s' where
    booked: "book_ticket init ''Asha'' 30 1 5 = Inr ([], Some b, s')"
    by blast
  from book_ticket_success [where s = init and name = "''Asha''" and age = 30 and tid = 1
      and seats = 5 and msgs = "[]" and b = b and s' = s'] booked
  obtain t fare where t: "map_of (trips init) 1 = Some t"
    and fare: "py_mul 5 (price_per_seat t) = Inr fare"
    and b: "b = \<lparr>booking_id = next_booking_id init, passenger_name = ''Asha'',
                 passenger_age = 30, trip_id = 1, num_seats = 5, total_fare = fare,
                 status = ''CONFIRMED''\<rparr>"
    and rest: "next_booking_id s' = next_booking_id init + 1"
      "seats_of s' 1 = Some (seats_available t - 5)"
      "get_booking s' (booking_id b) = Some b"
    by blast
  from t have t_eq: "t = \<lparr>trip.trip_id = 1, source = ''Bhopal'', destination = ''Indore'',
            date = ''2025-12-10'', time = ''09:00'', total_seats = 40, seats_available = 40,
            price_per_seat = PyFloat (float_literal 450)\<rparr>"
    by (simp add: trip_1_init)
  from fare have "fare = PyFloat (float_literal 2250)" by (simp add: t_eq fare_asha)
  with b rest booked show ?thesis by (simp add: counters_init t_eq)
qed

subsection \<open>Raw input to the web program\<close>

text \<open>
  C8. The claim is that no call raises. The web program does raise: the form fields
  reach \<open>int(...)\<close> unchecked, so a trip id "abc", a seat count "2.5", an empty age or a
  booking id "abc" raises \<open>ValueError\<close> out of \<open>book_ticket\<close> and \<open>cancel_booking\<close>.
\<close>

theorem web_raises_on_non_numeric_input:
  "web_book_ticket web_init ''Asha'' (StrV ''30'') (StrV ''abc'') (StrV ''2'') = Inl ValueError
   \<and> web_book_ticket web_init ''Asha'' (StrV ''30'') (StrV ''1'') (StrV ''2.5'') = Inl ValueError
   \<and> web_book_ticket web_init ''Asha'' (StrV '''') (StrV ''1'') (StrV ''2'') = Inl ValueError
   \<and> web_cancel_booking web_init (StrV ''abc'') = Inl ValueError"
  by (simp add: web_book_ticket_def web_cancel_booking_def parsed_fields [unfolded py_int.simps]
      trip_1_web_init py_mul.simps)

subsection \<open>The console program and the web program\<close>

lemma paired_trip_same: "paired_trip c w \<Longrightarrow> same_trip c w"
  unfolding paired_trip_def same_trip_def
  using py_eq_float_literal by fastforce

lemma paired_booking_same: "paired_booking c w \<Longrightarrow> same_booking c w"
  unfolding paired_booking_def same_booking_def
  using py_eq_float_literal by fastforce

lemma rel_option_paired_same:
  "rel_option paired_booking r r' \<Longrightarrow> rel_option same_booking r r'"
  by (cases r; cases r') (auto intro: paired_booking_same)

lemma paired_same: "paired c w \<Longrightarrow> same_system c w"
  unfolding paired_def same_system_def
  by (auto intro: keyed_mono paired_trip_same paired_booking_same)

lemma paired_init: "paired init web_init"
  unfolding paired_def
proof (intro conjI)
  show "keyed paired_trip (trips init) (trips web_init)"
    by (simp add: seed_defs keyed_def paired_trip_def)
qed (simp_all add: ledger_inv_init, simp_all add: seed_defs keyed_def)

text \<open>In paired systems a trip has between 0 and 50 seats available.\<close>

lemma paired_seats:
  assumes "paired c w" and "map_of (trips c) tid = Some t"
  shows "0 \<le> seats_available t" and "seats_available t \<le> 50"
proof -
  from assms(1) have inv: "ledger_inv c" and kt: "keyed paired_trip (trips c) (trips w)"
    by (simp_all add: paired_def)
  from keyed_map_of [OF kt, of tid] assms(2) obtain t' where "paired_trip t t'"
    by (cases "map_of (trips w) tid") auto
  then have "0 \<le> seats_available t" and "total_seats t \<le> 50"
    by (auto simp: paired_trip_def)
  with ledger_inv_seats_le(1) [OF inv assms(2)]
  show "0 \<le> seats_available t" and "seats_available t \<le> 50" by simp_all
qed

text \<open>
  One call of \<open>book_ticket\<close> on paired systems: both programs return, with paired values
  and paired systems, unless the call asks an existing trip for \<open>10^4300\<close> seats or more;
  then the console program raises \<open>ValueError\<close> where the web program returns \<open>None\<close>,
  and both systems are as they were.
\<close>

lemma paired_book_ticket:
  assumes p: "paired c w"
  shows "(\<exists>msgs r c' r' w'.
            book_ticket c name age tid seats = Inr (msgs, r, c')
            \<and> web_book_ticket w name (IntV age) (IntV tid) (IntV seats) = Inr (r', w')
            \<and> rel_option paired_booking r r' \<and> paired c' w')
         \<or> (\<not> seats < 10 ^ max_str_digits
            \<and> book_ticket c name age tid seats = Inl ValueError
            \<and> web_book_ticket w name (IntV age) (IntV tid) (IntV seats) = Inr (None, w))"
proof -
  from p have inv: "ledger_inv c" and kt: "keyed paired_trip (trips c) (trips w)"
    and kb: "keyed paired_booking (bookings c) (bookings w)"
    and nb: "next_booking_id c = next_booking_id w"
    and nt: "next_trip_id c = next_trip_id w"
    by (simp_all add: paired_def)
  from kt have look: "rel_option paired_trip (map_of (trips c) tid) (map_of (trips w) tid)"
    by (rule keyed_map_of)
  show ?thesis
  proof (cases "map_of (trips c) tid")
    case None
    with look have "map_of (trips w) tid = None" by (cases "map_of (trips w) tid") auto
    with None p show ?thesis by (simp add: book_ticket_def web_book_ticket_def)
  next
    case (Some t)
    with look obtain t' where t': "map_of (trips w) tid = Some t'" and pt: "paired_trip t t'"
      by (cases "map_of (trips w) tid") auto
    from pt obtain pr where pr: "0 < pr" "pr \<le> 1800"
      and price: "price_per_seat t = PyFloat (float_literal pr)"
      and t'_eq: "t' = t\<lparr>price_per_seat := PyInt (int pr)\<rparr>"
      and total: "total_seats t \<le> 50"
      by (auto simp: paired_trip_def)
    from paired_seats [OF p Some] have avail: "0 \<le> seats_available t"
      "seats_available t \<le> 50" .
    then have ok_avail: "int_str_ok (seats_available t)" by (intro int_str_ok_small) simp
    show ?thesis
    proof (cases "seats \<le> 0 \<or> seats_available t < seats")
      case True
      show ?thesis
      proof (cases "seats \<le> 0 \<or> int_str_ok seats")
        case True
        with \<open>seats \<le> 0 \<or> seats_available t < seats\<close> Some t' t'_eq p ok_avail
        show ?thesis by (auto simp: book_ticket_def web_book_ticket_def)
      next
        case False
        then have pos: "0 < seats" and long: "\<not> int_str_ok seats" by simp_all
        from long pos have limit: "\<not> seats < 10 ^ max_str_digits"
          by (simp add: int_str_ok_pos)
        from True pos have few: "seats_available t < seats" by simp
        have "book_ticket c name age tid seats = Inl ValueError"
          using Some pos few long by (simp add: book_ticket_def)
        moreover have "web_book_ticket w name (IntV age) (IntV tid) (IntV seats) = Inr (None, w)"
          using t' few by (simp add: web_book_ticket_def t'_eq)
        ultimately show ?thesis using limit by blast
      qed
    next
      case False
      then have pos: "0 < seats" and enough: "seats \<le> seats_available t" by simp_all
      from ledger_inv_seats_le [OF inv Some] have le: "seats_available t \<le> total_seats t"
        and id: "trip.trip_id t = tid" by simp_all
      from enough le total have small: "seats \<le> 50" by simp
      from pos small pr have "seats * int pr \<le> 50 * 1800"
        by (intro mult_mono) simp_all
      then have bound: "seats * int pr < 2 ^ 53" by simp
      let ?f = "nat seats * pr"
      from pos pr have f_pos: "0 < ?f" by simp
      from bound pos have "int ?f < int (2 ^ 53)" by simp
      then have f_small: "?f < 2 ^ 53" by (simp only: of_nat_less_iff)
      have fare: "py_mul seats (price_per_seat t) = Inr (PyFloat (float_literal ?f))"
        unfolding price using pos pr(1) bound by (rule py_mul_float_exact)
      have fare': "py_mul seats (price_per_seat t') = Inr (PyInt (int ?f))"
        using pos by (simp add: t'_eq py_mul.simps)
      let ?b = "\<lparr>booking_id = next_booking_id c, passenger_name = name, passenger_age = age,
                 trip_id = tid, num_seats = seats, total_fare = PyFloat (float_literal ?f),
                 status = ''CONFIRMED''\<rparr>"
      let ?c' = "c\<lparr>bookings := AList.update (next_booking_id c) ?b (bookings c),
                   next_booking_id := next_booking_id c + 1,
                   trips := AList.update tid
                              (t\<lparr>seats_available := seats_available t - seats\<rparr>) (trips c)\<rparr>"
      let ?b' = "?b\<lparr>total_fare := PyInt (int ?f)\<rparr>"
      let ?w' = "w\<lparr>bookings := AList.update (next_booking_id c) ?b' (bookings w),
                   next_booking_id := next_booking_id c + 1,
                   trips := AList.update tid
                              (t'\<lparr>seats_available := seats_available t' - seats\<rparr>) (trips w)\<rparr>"
      have c_out: "book_ticket c name age tid seats = Inr ([], Some ?b, ?c')"
        using Some False fare by (simp add: book_ticket_def Let_def)
      have w_out: "web_book_ticket w name (IntV age) (IntV tid) (IntV seats) = Inr (Some ?b', ?w')"
        using t' False fare' id by (simp add: web_book_ticket_def Let_def t'_eq nb [symmetric])
      have pb: "paired_booking ?b ?b'"
        unfolding paired_booking_def
        by (rule exI [of _ ?f]) (use f_pos f_small pos in simp)
      have pt': "paired_trip (t\<lparr>seats_available := seats_available t - seats\<rparr>)
                   (t'\<lparr>seats_available := seats_available t' - seats\<rparr>)"
        using pr price total enough by (auto simp: paired_trip_def t'_eq)
      have "ledger_inv ?c'" using inv c_out by (rule ledger_inv_book_ticket)
      then have "paired ?c' ?w'"
        unfolding paired_def using kt kb nt pb pt' by (simp add: keyed_update)
      with c_out w_out pb show ?thesis by (intro disjI1 exI conjI) (assumption | simp)+
    qed
  qed
qed

lemma paired_cancel_booking:
  assumes p: "paired c w"
  shows "\<exists>msgs r c' w'.
           cancel_booking c bid = (msgs, r, c')
           \<and> web_cancel_booking w (IntV bid) = Inr (r, w') \<and> paired c' w'"
proof -
  from p have inv: "ledger_inv c" and kt: "keyed paired_trip (trips c) (trips w)"
    and kb: "keyed paired_booking (bookings c) (bookings w)"
    and nb: "next_booking_id c = next_booking_id w"
    and nt: "next_trip_id c = next_trip_id w"
    by (simp_all add: paired_def)
  from kb have look: "rel_option paired_booking (map_of (bookings c) bid) (map_of (bookings w) bid)"
    by (rule keyed_map_of)
  show ?thesis
  proof (cases "map_of (bookings c) bid")
    case None
    with look have "map_of (bookings w) bid = None" by (cases "map_of (bookings w) bid") auto
    with None p show ?thesis by (auto simp: cancel_booking_def web_cancel_booking_def)
  next
    case (Some b)
    with look obtain b' where b': "map_of (bookings w) bid = Some b'"
      and pb: "paired_booking b b'"
      by (cases "map_of (bookings w) bid") auto
    from pb have same: "status b' = status b" "trip_id b' = trip_id b"
      "num_seats b' = num_seats b"
      by (auto simp: paired_booking_def)
    from Some have "(bid, b) \<in> set (bookings c)" by (rule map_of_SomeD)
    with inv have held: "0 < num_seats b" by (auto simp: ledger_inv_def)
    show ?thesis
    proof (cases "status b = ''CANCELLED''")
      case True
      with Some b' same p show ?thesis
        by (auto simp: cancel_booking_def web_cancel_booking_def)
    next
      case False
      from pb have pb': "paired_booking (b\<lparr>status := ''CANCELLED''\<rparr>)
                           (b'\<lparr>status := ''CANCELLED''\<rparr>)"
        by (auto simp: paired_booking_def)
      note found = Some
      from kt have look_t: "rel_option paired_trip (map_of (trips c) (trip_id b))
                              (map_of (trips w) (trip_id b))"
        by (rule keyed_map_of)
      show ?thesis
      proof (cases "map_of (trips c) (trip_id b)")
        case None
        with look_t have none': "map_of (trips w) (trip_id b) = None"
          by (cases "map_of (trips w) (trip_id b)") auto
        let ?c' = "c\<lparr>bookings := AList.update bid (b\<lparr>status := ''CANCELLED''\<rparr>) (bookings c)\<rparr>"
        let ?w' = "w\<lparr>bookings := AList.update bid (b'\<lparr>status := ''CANCELLED''\<rparr>) (bookings w)\<rparr>"
        have c_eq: "cancel_booking c bid = ([], True, ?c')"
          using found False None by (simp add: cancel_booking_def Let_def)
        have w_eq: "web_cancel_booking w (IntV bid) = Inr (True, ?w')"
          using b' False none' same by (simp add: web_cancel_booking_def Let_def)
        from c_eq inv have "ledger_inv ?c'" by (auto dest: ledger_inv_cancel_booking)
        then have "paired ?c' ?w'"
          unfolding paired_def using kt kb nt nb pb' by (simp add: keyed_update)
        with c_eq w_eq show ?thesis by (intro exI conjI) (assumption | simp)+
      next
        case (Some t)
        with look_t obtain t' where t': "map_of (trips w) (trip_id b) = Some t'"
          and pt: "paired_trip t t'"
          by (cases "map_of (trips w) (trip_id b)") auto
        let ?t = "t\<lparr>seats_available := seats_available t + num_seats b\<rparr>"
        let ?t' = "t'\<lparr>seats_available := seats_available t' + num_seats b\<rparr>"
        let ?c' = "c\<lparr>trips := AList.update (trip_id b) ?t (trips c),
                     bookings := AList.update bid (b\<lparr>status := ''CANCELLED''\<rparr>) (bookings c)\<rparr>"
        let ?w' = "w\<lparr>trips := AList.update (trip_id b) ?t' (trips w),
                     bookings := AList.update bid (b'\<lparr>status := ''CANCELLED''\<rparr>) (bookings w)\<rparr>"
        have c_eq: "cancel_booking c bid = ([], True, ?c')"
          using found False Some by (simp add: cancel_booking_def Let_def)
        have w_eq: "web_cancel_booking w (IntV bid) = Inr (True, ?w')"
          using b' False t' same by (simp add: web_cancel_booking_def Let_def)
        from pt held have pt': "paired_trip ?t ?t'" by (auto simp: paired_trip_def)
        from c_eq inv have "ledger_inv ?c'" by (auto dest: ledger_inv_cancel_booking)
        then have "paired ?c' ?w'"
          unfolding paired_def using kt kb nt nb pb' pt' by (simp add: keyed_update)
        with c_eq w_eq show ?thesis by (intro exI conjI) (assumption | simp)+
      qed
    qed
  qed
qed

text \<open>
  One call on paired systems leaves paired systems, and returns the same value in both
  programs when it is within the digit limit.
\<close>

lemma paired_step:
  assumes "paired c w"
  shows "paired (snd (snd (step x c))) (snd (web_step x w))
         \<and> (within_digit_limit x \<longrightarrow>
              same_result (fst (snd (step x c))) (fst (web_step x w))
              \<and> returned (fst (snd (step x c))) \<and> returned (fst (web_step x w)))"
proof (cases x)
  case ListTrips
  from assms have "keyed paired_trip (trips c) (trips w)" by (simp add: paired_def)
  then have "keyed same_trip (trips c) (trips w)"
    by (rule keyed_mono) (rule paired_trip_same)
  then have "list_all2 same_trip (map snd (trips c)) (map snd (trips w))"
    by (rule keyed_values)
  with assms ListTrips show ?thesis
    by (simp add: list_all_trips_def web_list_all_trips_def)
next
  case (BookTicket name age tid seats)
  from paired_book_ticket [OF assms, of name age tid seats]
  consider (both) msgs r c' r' w' where
      "book_ticket c name age tid seats = Inr (msgs, r, c')"
      "web_book_ticket w name (IntV age) (IntV tid) (IntV seats) = Inr (r', w')"
      "rel_option paired_booking r r'" "paired c' w'"
    | (raised) "\<not> seats < 10 ^ max_str_digits"
      "book_ticket c name age tid seats = Inl ValueError"
      "web_book_ticket w name (IntV age) (IntV tid) (IntV seats) = Inr (None, w)"
    by blast
  then show ?thesis
  proof cases
    case both
    with BookTicket show ?thesis by (simp add: rel_option_paired_same)
  next
    case raised
    with BookTicket assms show ?thesis by simp
  qed
next
  case (CancelBooking bid)
  from paired_cancel_booking [OF assms, of bid] obtain msgs r c' w' where
    "cancel_booking c bid = (msgs, r, c')"
    "web_cancel_booking w (IntV bid) = Inr (r, w')" "paired c' w'"
    by blast
  with CancelBooking show ?thesis by simp
next
  case ListBookings
  from assms have "keyed paired_booking (bookings c) (bookings w)" by (simp add: paired_def)
  then have "keyed same_booking (bookings c) (bookings w)"
    by (rule keyed_mono) (rule paired_booking_same)
  then have "list_all2 same_booking (map snd (bookings c)) (map snd (bookings w))"
    by (rule keyed_values)
  with assms ListBookings show ?thesis
    by (simp add: list_all_bookings_def web_list_all_bookings_def)
qed

lemma paired_run:
  assumes "paired c w"
  shows "paired (snd (run xs c)) (snd (web_run xs w))
         \<and> (list_all within_digit_limit xs \<longrightarrow>
              list_all2 same_result (fst (run xs c)) (fst (web_run xs w))
              \<and> list_all returned (fst (run xs c))
              \<and> list_all returned (fst (web_run xs w)))"
  using assms
proof (induction xs arbitrary: c w)
  case Nil
  then show ?case by simp
next
  case (Cons x xs)
  obtain msgs r c' where c: "step x c = (msgs, r, c')" by (cases "step x c")
  obtain r' w' where w: "web_step x w = (r', w')" by (cases "web_step x w")
  from paired_step [OF Cons.prems, of x] c w have p': "paired c' w'"
    and res: "within_digit_limit x \<longrightarrow> same_result r r' \<and> returned r \<and> returned r'"
    by simp_all
  from Cons.IH [OF p'] c w res show ?case by (auto split: prod.splits)
qed

text \<open>
  The two programs, started on their seeded systems, end every sequence of calls in the
  same ledger state, and return the same values, call by call, without raising, on every
  sequence of calls that are all within the digit limit. (Prices and fares are compared
  with Python's \<open>==\<close>: the web program holds them as ints, the console program as
  floats. The lines that the console program prints are not return values.)
\<close>

lemma console_web_agreement:
  "same_system (snd (run ops init)) (snd (web_run ops web_init))
   \<and> (list_all within_digit_limit ops \<longrightarrow>
        list_all2 same_result (fst (run ops init)) (fst (web_run ops web_init))
        \<and> list_all returned (fst (run ops init))
        \<and> list_all returned (fst (web_run ops web_init)))"
  using paired_run [OF paired_init, of ops] by (simp add: paired_same)


subsection \<open>Booking the last seats\<close>

lemma book_all_seats:
  assumes "map_of (trips s) tid = Some t" and "0 < seats_available t"
    and "py_mul (seats_available t) (price_per_seat t) = Inr fare"
  shows "\<exists>b s'. book_ticket s name age tid (seats_available t) = Inr ([], Some b, s')
           \<and> seats_of s' tid = Some 0"
  using assms by (simp add: book_ticket_def Let_def seats_of_def update_conv')

lemma web_book_all_seats:
  assumes "map_of (trips w) tid = Some t" and "0 < seats_available t"
    and "py_mul (seats_available t) (price_per_seat t) = Inr fare"
    and "py_int tidv = Inr tid" and "py_int seatsv = Inr (seats_available t)"
    and "py_int agev = Inr age"
  shows "\<exists>b w'. web_book_ticket w name agev tidv seatsv = Inr (Some b, w')
           \<and> seats_of w' tid = Some 0"
  using assms by (simp add: web_book_ticket_def Let_def seats_of_def update_conv')

text \<open>
  C10. The states of the programs are those that their seeded systems reach by a
  sequence of calls. In every such state and for every existing trip with
  \<open>seats_available > 0\<close>, \<open>book_ticket\<close> with exactly \<open>seats_available\<close> seats succeeds and
  leaves the trip with 0 seats: the comparison with the available seats is strict. This
  holds for the console program and for the web program, where the arguments arrive as
  ints or as numerals.
\<close>

theorem last_seats_bookable:
  "(map_of (trips (snd (run ops init))) tid = Some t \<and> 0 < seats_available t \<longrightarrow>
      (\<exists>b s'. book_ticket (snd (run ops init)) name age tid (seats_available t)
                 = Inr ([], Some b, s')
         \<and> seats_of s' tid = Some 0))
   \<and> (map_of (trips (snd (web_run ops web_init))) tid = Some t \<and> 0 < seats_available t
        \<and> py_int tidv = Inr tid \<and> py_int seatsv = Inr (seats_available t)
        \<and> py_int agev = Inr age \<longrightarrow>
      (\<exists>b w'. web_book_ticket (snd (web_run ops web_init)) name agev tidv seatsv
                 = Inr (Some b, w')
         \<and> seats_of w' tid = Some 0))"
proof (intro conjI impI)
  let ?c = "snd (run ops init)" and ?w = "snd (web_run ops web_init)"
  from paired_run [OF paired_init, of ops] have p: "paired ?c ?w" by simp
  {
    assume "map_of (trips ?c) tid = Some t \<and> 0 < seats_available t"
    then have t: "map_of (trips ?c) tid = Some t" and pos: "0 < seats_available t"
      by simp_all
    from paired_seats(2) [OF p t] pos have "\<bar>seats_available t\<bar> \<le> 50" by simp
    moreover have "(50::int) < 2 ^ 1023" by simp
    ultimately have "\<bar>seats_available t\<bar> < 2 ^ 1023" by (rule le_less_trans)
    then obtain fare where "py_mul (seats_available t) (price_per_seat t) = Inr fare"
      using py_mul_small by blast
    with t pos show "\<exists>b s'. book_ticket ?c name age tid (seats_available t)
                 = Inr ([], Some b, s')
         \<and> seats_of s' tid = Some 0"
      by (rule book_all_seats)
  next
    assume "map_of (trips ?w) tid = Some t \<and> 0 < seats_available t
        \<and> py_int tidv = Inr tid \<and> py_int seatsv = Inr (seats_available t)
        \<and> py_int agev = Inr age"
    then have t: "map_of (trips ?w) tid = Some t" and pos: "0 < seats_available t"
      and parsed: "py_int tidv = Inr tid" "py_int seatsv = Inr (seats_available t)"
        "py_int agev = Inr age"
      by simp_all
    from p have "keyed paired_trip (trips ?c) (trips ?w)" by (simp add: paired_def)
    from keyed_map_of [OF this, of tid] t obtain tc where "paired_trip tc t"
      by (cases "map_of (trips ?c) tid") auto
    then obtain pr where "price_per_seat t = PyInt pr" by (auto simp: paired_trip_def)
    then have "py_mul (seats_available t) (price_per_seat t)
               = Inr (PyInt (seats_available t * pr))"
      by (simp add: py_mul.simps)
    with t pos show "\<exists>b w'. web_book_ticket ?w name agev tidv seatsv = Inr (Some b, w')
         \<and> seats_of w' tid = Some 0"
      using parsed by (rule web_book_all_seats)
  }
qed

text \<open>
  After Asha's booking of five seats, trip 1 has 35 seats, and a booking of 35 takes
  them all.
\<close>

theorem last_seats_bookable_witness:
  "seats_of (snd (run [BookTicket ''Asha'' 30 1 5] init)) 1 = Some 35
   \<and> (\<exists>b s'. book_ticket (snd (run [BookTicket ''Asha'' 30 1 5] init)) ''Ravi'' 30 1 35
                = Inr ([], Some b, s')
        \<and> seats_of s' 1 = Some 0)
   \<and> seats_of (snd (web_run [BookTicket ''Asha'' 30 1 5] web_init)) 1 = Some 35
   \<and> (\<exists>b w'. web_book_ticket (snd (web_run [BookTicket ''Asha'' 30 1 5] web_init))
                  ''Ravi'' (StrV ''30'') (StrV ''1'') (StrV ''35'')
                = Inr (Some b, w')
        \<and> seats_of w' 1 = Some 0)"
proof -
  let ?ops = "[BookTicket ''Asha'' 30 1 5]"
  let ?tc = "\<lparr>trip.trip_id = 1, source = ''Bhopal'', destination = ''Indore'',
              date = ''2025-12-10'', time = ''09:00'', total_seats = 40,
              seats_available = 35, price_per_seat = PyFloat (float_literal 450)\<rparr>"
  let ?tw = "?tc\<lparr>price_per_seat := PyInt 450\<rparr>"
  have c: "map_of (trips (snd (run ?ops init))) 1 = Some ?tc"
    by (simp add: book_asha update_conv')
  have w: "map_of (trips (snd (web_run ?ops web_init))) 1 = Some ?tw"
    by (simp add: web_book_asha update_conv')
  from last_seats_bookable [where ops = ?ops and tid = 1 and t = ?tc and name = "''Ravi''"
      and age = 30] c
  have "\<exists>b s'. book_ticket (snd (run ?ops init)) ''Ravi'' 30 1 35 = Inr ([], Some b, s')
          \<and> seats_of s' 1 = Some 0"
    by simp
  moreover
  from last_seats_bookable [where ops = ?ops and tid = 1 and t = ?tw and name = "''Ravi''"
      and age = 30 and tidv = "StrV ''1''" and seatsv = "StrV ''35''"
      and agev = "StrV ''30''"] w parsed_fields
  have "\<exists>b w'. web_book_ticket (snd (web_run ?ops web_init))
                  ''Ravi'' (StrV ''30'') (StrV ''1'') (StrV ''35'')
                = Inr (Some b, w')
          \<and> seats_of w' 1 = Some 0"
    by simp
  ultimately show ?thesis using c w by (simp add: seats_of_def)
qed

end
